theory Spec2Isabelle
  imports Complex_Main
begin

section \<open>Python values and dictionaries\<close>

text \<open>
  The extractor builds a \<^verbatim>\<open>Dict[str, Dict[str, Any]]\<close>. The values it stores are strings,
  integers, floats and lists of those, so \<open>Any\<close> is the datatype \<open>pyval\<close>.

  A float is kept as the number its decimal token denotes: \<open>Finite q\<close> stands for the
  binary64 value nearest to the rational \<open>q\<close>. The rounding itself, the sign of zero and
  the textual rendering of floats are not part of the model.
\<close>

datatype pyfloat = Finite rat | Infinity bool | NaN

datatype pyval = PStr string | PInt int | PFloat pyfloat | PList "pyval list"

text \<open>
  A Python \<open>dict\<close> keeps its keys in insertion order, and the CSV export iterates in that
  order. It is an association list: \<open>d[k] = v\<close> replaces the value in place when the key
  is present and appends the pair otherwise.
\<close>

type_synonym ('k, 'v) pydict = "('k \<times> 'v) list"

definition dict_get :: "('k, 'v) pydict \<Rightarrow> 'k \<Rightarrow> 'v option" where
  "dict_get d k = map_of d k"

fun dict_set :: "('k, 'v) pydict \<Rightarrow> 'k \<Rightarrow> 'v \<Rightarrow> ('k, 'v) pydict" where
  "dict_set [] k v = [(k, v)]"
| "dict_set ((k', v') # d) k v =
     (if k' = k then (k', v) # d else (k', v') # dict_set d k v)"

type_synonym material = "(string, pyval) pydict"
type_synonym material_set = "(string, material) pydict"

datatype error = KeyError | AttributeError | ValueError

section \<open>Strings\<close>

text \<open>
  Text is read as a list of characters; the functions below give the behaviour of the
  Python string methods on ASCII text, which is what an input deck contains.
  \<open>str.strip\<close>, \<open>str.isspace\<close> and the regular expression class \<open>\s\<close> agree on
  the ASCII white space: the codes 9 to 13, 28 to 31 and 32.
\<close>

definition isspace :: "char \<Rightarrow> bool" where
  "isspace c = (c \<in> set [CHR 0x09, CHR 0x0A, CHR 0x0B, CHR 0x0C, CHR 0x0D,
                           CHR 0x1C, CHR 0x1D, CHR 0x1E, CHR 0x1F, CHR 0x20])"

definition isdigit :: "char \<Rightarrow> bool" where
  "isdigit c = (c \<in> set ''0123456789'')"

definition lowercase :: string where
  "lowercase = ''abcdefghijklmnopqrstuvwxyz''"

definition uppercase :: string where
  "uppercase = ''ABCDEFGHIJKLMNOPQRSTUVWXYZ''"

definition isalpha :: "char \<Rightarrow> bool" where
  "isalpha c = (c \<in> set lowercase \<or> c \<in> set uppercase)"

definition upper_char :: "char \<Rightarrow> char" where
  "upper_char c = (case map_of (zip lowercase uppercase) c of Some u \<Rightarrow> u | None \<Rightarrow> c)"

definition lower_char :: "char \<Rightarrow> char" where
  "lower_char c = (case map_of (zip uppercase lowercase) c of Some l \<Rightarrow> l | None \<Rightarrow> c)"

definition upper :: "string \<Rightarrow> string" where
  "upper s = map upper_char s"

definition lower :: "string \<Rightarrow> string" where
  "lower s = map lower_char s"

definition strip :: "string \<Rightarrow> string" where
  "strip s = rev (dropWhile isspace (rev (dropWhile isspace s)))"

fun startswith :: "string \<Rightarrow> string \<Rightarrow> bool" where
  "startswith s [] = True"
| "startswith [] (p # ps) = False"
| "startswith (c # cs) (p # ps) = (c = p \<and> startswith cs ps)"

text \<open>\<open>contains s sub\<close> is \<^verbatim>\<open>sub in s\<close>.\<close>

fun contains :: "string \<Rightarrow> string \<Rightarrow> bool" where
  "contains [] sub = (sub = [])"
| "contains (c # cs) sub = (startswith (c # cs) sub \<or> contains cs sub)"

text \<open>\<open>before_first s sep\<close> is \<^verbatim>\<open>s.split(sep)[0]\<close> for a non-empty separator.\<close>

fun before_first :: "string \<Rightarrow> string \<Rightarrow> string" where
  "before_first [] sep = []"
| "before_first (c # cs) sep =
     (if startswith (c # cs) sep then [] else c # before_first cs sep)"

text \<open>\<open>split_on sep s\<close> is \<^verbatim>\<open>s.split(sep)\<close> for a separator of one character.\<close>

fun split_on :: "char \<Rightarrow> string \<Rightarrow> string list" where
  "split_on sep [] = [[]]"
| "split_on sep (c # cs) =
     (if c = sep then [] # split_on sep cs
      else (case split_on sep cs of t # ts \<Rightarrow> (c # t) # ts | [] \<Rightarrow> [[c]]))"

text \<open>\<open>str.title\<close>: the first letter of every run of letters in upper case, the others in
  lower case.\<close>

fun title_from :: "bool \<Rightarrow> string \<Rightarrow> string" where
  "title_from prev [] = []"
| "title_from prev (c # cs) =
     (if isalpha c then (if prev then lower_char c else upper_char c) # title_from True cs
      else c # title_from False cs)"

definition title :: "string \<Rightarrow> string" where
  "title s = title_from False s"

definition digit_val :: "char \<Rightarrow> int" where
  "digit_val c = (case map_of (zip ''0123456789'' [0, 1, 2, 3, 4, 5, 6, 7, 8, 9]) c of
                    Some d \<Rightarrow> d | None \<Rightarrow> 0)"

text \<open>\<open>int_of_digits\<close> is the number that a run of decimal digits denotes.\<close>

definition int_of_digits :: "string \<Rightarrow> int" where
  "int_of_digits ds = foldl (\<lambda>a c. 10 * a + digit_val c) 0 ds"

text \<open>
  \<open>int\<close> on a run of decimal digits. CPython refuses a run of more than
  \<open>sys.get_int_max_str_digits()\<close> digits, 4300 unless the interpreter is told otherwise,
  leading zeros counted: it raises \<open>ValueError\<close>.
\<close>

definition int_max_str_digits :: nat where
  "int_max_str_digits = 4300"

definition py_int :: "string \<Rightarrow> error + int" where
  "py_int ds =
     (if int_max_str_digits < length ds then Inl ValueError else Inr (int_of_digits ds))"

section \<open>The regular expressions of the extractor\<close>

text \<open>
  \<^verbatim>\<open>re.search(r'KEY\s*=\s*([^\s,]+)', line, re.IGNORECASE)\<close> and
  \<^verbatim>\<open>re.search(r'constants\s*=\s*(\d+)', line, re.IGNORECASE)\<close>: the leftmost position at
  which the key (in any case), optional white space, \<open>=\<close>, optional white space and a
  non-empty run of the group's class match. None of the three pieces can match a
  character of its neighbour, so the greedy match never backtracks. The result is
  group 1.
\<close>

definition match_attr_at :: "string \<Rightarrow> (char \<Rightarrow> bool) \<Rightarrow> string \<Rightarrow> string option" where
  "match_attr_at key cls s =
     (if startswith (lower s) key then
        (case dropWhile isspace (drop (length key) s) of
           [] \<Rightarrow> None
         | e # r \<Rightarrow>
             if e = CHR ''='' then
               (let g = takeWhile cls (dropWhile isspace r)
                in if g = [] then None else Some g)
             else None)
      else None)"

fun search_attr :: "string \<Rightarrow> (char \<Rightarrow> bool) \<Rightarrow> string \<Rightarrow> string option" where
  "search_attr key cls [] = match_attr_at key cls []"
| "search_attr key cls (c # cs) =
     (case match_attr_at key cls (c # cs) of
        Some g \<Rightarrow> Some g
      | None \<Rightarrow> search_attr key cls cs)"

definition token_char :: "char \<Rightarrow> bool" where
  "token_char c = (\<not> isspace c \<and> c \<noteq> CHR '','')"

text \<open>\<^verbatim>\<open>re.search(r'(\d+)', line)\<close>: the first maximal run of digits.\<close>

definition search_digits :: "string \<Rightarrow> string option" where
  "search_digits s =
     (let r = dropWhile (\<lambda>c. \<not> isdigit c) s
      in if r = [] then None else Some (takeWhile isdigit r))"

section \<open>\<open>float\<close> on a string\<close>

text \<open>
  The grammar \<open>float\<close> accepts, after stripping white space: an optional sign, then
  \<open>inf\<close>, \<open>infinity\<close> or \<open>nan\<close> in any case, or a decimal number with an optional
  exponent. A digit part is a run of digits in which single underscores may separate
  digits. Anything else raises \<open>ValueError\<close>, which is \<open>None\<close> here.
\<close>

fun more_digits :: "string \<Rightarrow> string \<times> string" where
  "more_digits [] = ([], [])"
| "more_digits [c] = (if isdigit c then ([c], []) else ([], [c]))"
| "more_digits (c # d # cs) =
     (if isdigit c then (case more_digits (d # cs) of (ds, r) \<Rightarrow> (c # ds, r))
      else if c = CHR ''_'' \<and> isdigit d then (case more_digits cs of (ds, r) \<Rightarrow> (d # ds, r))
      else ([], c # d # cs))"

definition digitpart :: "string \<Rightarrow> (string \<times> string) option" where
  "digitpart s =
     (case s of
        [] \<Rightarrow> None
      | c # cs \<Rightarrow> if isdigit c then (case more_digits cs of (ds, r) \<Rightarrow> Some (c # ds, r))
                  else None)"

text \<open>\<open>number s\<close>: the integer digits, the fraction digits and the rest.\<close>

definition number :: "string \<Rightarrow> (string \<times> string \<times> string) option" where
  "number s =
     (case digitpart s of
        Some (ip, r) \<Rightarrow>
          (case r of
             [] \<Rightarrow> Some (ip, [], [])
           | c # r' \<Rightarrow>
               if c = CHR ''.'' then
                 (case digitpart r' of
                    Some (fp, r'') \<Rightarrow> Some (ip, fp, r'')
                  | None \<Rightarrow> Some (ip, [], r'))
               else Some (ip, [], r))
      | None \<Rightarrow>
          (case s of
             [] \<Rightarrow> None
           | c # r' \<Rightarrow>
               if c = CHR ''.'' then
                 (case digitpart r' of
                    Some (fp, r'') \<Rightarrow> Some ([], fp, r'')
                  | None \<Rightarrow> None)
               else None))"

text \<open>\<open>exponent s\<close>: the decimal exponent when \<open>s\<close> is empty or a whole exponent part.\<close>

definition exponent :: "string \<Rightarrow> int option" where
  "exponent s =
     (case s of
        [] \<Rightarrow> Some 0
      | e # r \<Rightarrow>
          if e = CHR ''e'' \<or> e = CHR ''E'' then
            (let neg = startswith r ''-'';
                 r' = (if startswith r ''+'' \<or> startswith r ''-'' then drop 1 r else r)
             in case digitpart r' of
                  Some (ds, []) \<Rightarrow> Some (if neg then - int_of_digits ds else int_of_digits ds)
                | _ \<Rightarrow> None)
          else None)"

definition scale10 :: "rat \<Rightarrow> int \<Rightarrow> rat" where
  "scale10 q e = (if 0 \<le> e then q * 10 ^ nat e else q / 10 ^ nat (- e))"

definition absfloatvalue :: "bool \<Rightarrow> string \<Rightarrow> pyfloat option" where
  "absfloatvalue neg s =
     (if lower s = ''inf'' \<or> lower s = ''infinity'' then Some (Infinity neg)
      else if lower s = ''nan'' then Some NaN
      else
        (case number s of
           None \<Rightarrow> None
         | Some (ip, fp, r) \<Rightarrow>
             (case exponent r of
                None \<Rightarrow> None
              | Some e \<Rightarrow>
                  (let q = scale10 (of_int (int_of_digits (ip @ fp))) (e - int (length fp))
                   in Some (Finite (if neg then - q else q))))))"

definition float :: "string \<Rightarrow> pyfloat option" where
  "float v =
     (let s = strip v
      in if startswith s ''-'' then absfloatvalue True (drop 1 s)
         else if startswith s ''+'' then absfloatvalue False (drop 1 s)
         else absfloatvalue False s)"

section \<open>\<open>extract_material_properties\<close>\<close>

text \<open>The three variables the loop tracks, and the dictionary it fills.\<close>

record state =
  materials :: material_set
  current_material :: "string option"
  current_property :: "string option"
  reading_data :: bool

definition init :: state where
  "init = \<lparr>materials = [], current_material = None, current_property = None,
           reading_data = False\<rparr>"

text \<open>The truth value of a variable that is \<open>None\<close> or a string.\<close>

definition truthy :: "string option \<Rightarrow> bool" where
  "truthy x = (case x of None \<Rightarrow> False | Some s \<Rightarrow> s \<noteq> [])"

text \<open>STEP 1: an empty line, a comment line and a line that is empty once its inline
  comment is removed are skipped (\<open>None\<close>); otherwise the cleaned line.\<close>

definition clean :: "string \<Rightarrow> string option" where
  "clean raw =
     (let line = strip raw
      in if line = [] then None
         else if startswith line ''**'' then None
         else if contains line ''**'' then
           (let line' = strip (before_first line ''**'')
            in if line' = [] then None else Some line')
         else Some line)"

text \<open>\<^verbatim>\<open>materials[cm][key] = v\<close>\<close>

definition set_prop :: "material_set \<Rightarrow> string \<Rightarrow> string \<Rightarrow> pyval \<Rightarrow> error + material_set" where
  "set_prop ms cm key v =
     (case dict_get ms cm of
        None \<Rightarrow> Inl KeyError
      | Some props \<Rightarrow> Inr (dict_set ms cm (dict_set props key v)))"

text \<open>\<^verbatim>\<open>materials[cm][cp].append(row)\<close>\<close>

definition append_row :: "material_set \<Rightarrow> string \<Rightarrow> string \<Rightarrow> pyval \<Rightarrow> error + material_set" where
  "append_row ms cm cp row =
     (case dict_get ms cm of
        None \<Rightarrow> Inl KeyError
      | Some props \<Rightarrow>
          (case dict_get props cp of
             None \<Rightarrow> Inl KeyError
           | Some (PList rows) \<Rightarrow> Inr (dict_set ms cm (dict_set props cp (PList (rows @ [row]))))
           | Some _ \<Rightarrow> Inl AttributeError))"

text \<open>
  What the ten data-bearing branches share: the property becomes the current one, its
  row list is set to the empty list, data reading is switched on, and then the attribute
  the branch looks for on the keyword line, if it is found, is stored under its own key.
  Looking for the attribute comes after the row list is reset and may raise (the
  \<open>int\<close> of the \<open>*USER MATERIAL\<close> branch).
\<close>

definition start_property ::
  "state \<Rightarrow> string \<Rightarrow> string \<Rightarrow> error + (string \<times> pyval) option \<Rightarrow> error + state" where
  "start_property s cm prop attr =
     (case set_prop (materials s) cm prop (PList []) of
        Inl e \<Rightarrow> Inl e
      | Inr ms \<Rightarrow>
          (case attr of
             Inl e \<Rightarrow> Inl e
           | Inr None \<Rightarrow>
               Inr (s\<lparr>materials := ms, current_property := Some prop, reading_data := True\<rparr>)
           | Inr (Some (k, v)) \<Rightarrow>
               (case set_prop ms cm k v of
                  Inl e \<Rightarrow> Inl e
                | Inr ms' \<Rightarrow>
                    Inr (s\<lparr>materials := ms', current_property := Some prop,
                           reading_data := True\<rparr>))))"

definition attr :: "string \<Rightarrow> string option \<Rightarrow> (string \<times> pyval) option" where
  "attr key m = map_option (\<lambda>g. (key, PStr g)) m"

definition models :: "string list" where
  "models = [''mooney-rivlin'', ''neo hooke'', ''ogden'', ''polynomial'', ''yeoh'']"

definition remove_spaces :: "string \<Rightarrow> string" where
  "remove_spaces s = filter (\<lambda>c. c \<noteq> CHR '' '') s"

definition hyperelastic_model :: "string \<Rightarrow> (string \<times> pyval) option" where
  "hyperelastic_model line =
     map_option (\<lambda>model. (''Hyperelastic_Model'', PStr (title model)))
       (find (\<lambda>model. contains (remove_spaces (lower line)) (remove_spaces model)) models)"

text \<open>The attribute of the \<open>*USER MATERIAL\<close> branch:
  \<^verbatim>\<open>int(const_match.group(1))\<close> when \<^verbatim>\<open>constants\s*=\s*(\d+)\<close> matches.\<close>

definition constants_attr :: "string \<Rightarrow> error + (string \<times> pyval) option" where
  "constants_attr line =
     (case search_attr ''constants'' isdigit line of
        None \<Rightarrow> Inr None
      | Some g \<Rightarrow>
          (case py_int g of
             Inl e \<Rightarrow> Inl e
           | Inr n \<Rightarrow> Inr (Some (''User_Material_Constants'', PInt n))))"

definition non_material_keywords :: "string list" where
  "non_material_keywords =
     [''*STEP'', ''*PART'', ''*ASSEMBLY'', ''*ELEMENT'', ''*NODE'',
      ''*SECTION'', ''*SOLID SECTION'', ''*SHELL SECTION'',
      ''*BEAM SECTION'', ''*BOUNDARY'', ''*ELSET'', ''*NSET'']"

text \<open>STEP 3: a keyword line while a material is current.\<close>

definition keyword_line :: "state \<Rightarrow> string \<Rightarrow> string \<Rightarrow> error + state" where
  "keyword_line s cm line =
     (let line_upper = upper line in
      if startswith line_upper ''*ELASTIC'' then
        start_property s cm ''Elastic''
          (Inr (attr ''Elastic_Type'' (search_attr ''type'' token_char line)))
      else if startswith line_upper ''*PLASTIC'' then
        start_property s cm ''Plastic''
          (Inr (attr ''Plastic_Hardening'' (search_attr ''hardening'' token_char line)))
      else if startswith line_upper ''*DENSITY'' then
        start_property s cm ''Density'' (Inr None)
      else if startswith line_upper ''*CONDUCTIVITY'' then
        start_property s cm ''Conductivity'' (Inr None)
      else if startswith line_upper ''*SPECIFIC HEAT'' then
        start_property s cm ''Specific_Heat'' (Inr None)
      else if startswith line_upper ''*EXPANSION'' then
        start_property s cm ''Expansion''
          (Inr (attr ''Expansion_Type'' (search_attr ''type'' token_char line)))
      else if startswith line_upper ''*DAMPING'' then
        start_property s cm ''Damping'' (Inr None)
      else if startswith line_upper ''*HYPERELASTIC'' then
        start_property s cm ''Hyperelastic'' (Inr (hyperelastic_model line))
      else if startswith line_upper ''*VISCOELASTIC'' then
        start_property s cm ''Viscoelastic'' (Inr None)
      else if startswith line_upper ''*USER MATERIAL'' then
        start_property s cm ''User_Material'' (constants_attr line)
      else if startswith line_upper ''*DEPVAR'' then
        (case search_digits line of
           None \<Rightarrow> Inr (s\<lparr>reading_data := False\<rparr>)
         | Some g \<Rightarrow>
             (case py_int g of
                Inl e \<Rightarrow> Inl e
              | Inr n \<Rightarrow>
                  (case set_prop (materials s) cm ''Depvar'' (PInt n) of
                     Inl e \<Rightarrow> Inl e
                   | Inr ms \<Rightarrow> Inr (s\<lparr>materials := ms, reading_data := False\<rparr>))))
      else if list_ex (startswith line_upper) non_material_keywords then
        Inr (s\<lparr>current_material := None, current_property := None, reading_data := False\<rparr>)
      else Inr (s\<lparr>reading_data := False\<rparr>))"

text \<open>STEP 4: a data line. \<open>values\<close> are the trimmed, non-empty comma-separated tokens;
  the row is the list of their floats when every one converts, and the list of the
  tokens themselves when one raises \<open>ValueError\<close>.\<close>

definition values_of :: "string \<Rightarrow> string list" where
  "values_of line = filter (\<lambda>v. v \<noteq> []) (map strip (split_on CHR '','' line))"

definition row_of :: "string list \<Rightarrow> pyval" where
  "row_of vs =
     (case those (map float vs) of
        Some numeric_values \<Rightarrow> PList (map PFloat numeric_values)
      | None \<Rightarrow> PList (map PStr vs))"

definition data_line :: "state \<Rightarrow> string \<Rightarrow> string \<Rightarrow> string \<Rightarrow> error + state" where
  "data_line s cm cp line =
     (let vs = values_of line
      in if vs = [] then Inr s
         else (case append_row (materials s) cm cp (row_of vs) of
                 Inl e \<Rightarrow> Inl e
               | Inr ms \<Rightarrow> Inr (s\<lparr>materials := ms\<rparr>)))"

text \<open>One iteration of the loop on one raw line.\<close>

definition process_line :: "state \<Rightarrow> string \<Rightarrow> error + state" where
  "process_line s raw =
     (case clean raw of
        None \<Rightarrow> Inr s
      | Some line \<Rightarrow>
          if startswith (upper line) ''*MATERIAL'' then
            (case search_attr ''name'' token_char line of
               Some name \<Rightarrow>
                 Inr (s\<lparr>materials := dict_set (materials s) name [],
                        current_material := Some name,
                        current_property := None,
                        reading_data := False\<rparr>)
             | None \<Rightarrow> Inr s)
          else if truthy (current_material s) \<and> startswith line ''*'' then
            (case current_material s of
               Some cm \<Rightarrow> keyword_line s cm line
             | None \<Rightarrow> Inr s)
          else if truthy (current_material s) \<and> reading_data s
                  \<and> truthy (current_property s) \<and> \<not> startswith line ''*'' then
            (case (current_material s, current_property s) of
               (Some cm, Some cp) \<Rightarrow> data_line s cm cp line
             | _ \<Rightarrow> Inr s)
          else Inr s)"

text \<open>
  The loop over \<open>lines\<close>, the list that \<open>f.readlines()\<close> returns (reading the file is
  outside the model, and so is what the function prints); an exception ends the loop.
\<close>

fun run :: "state \<Rightarrow> string list \<Rightarrow> error + state" where
  "run s [] = Inr s"
| "run s (l # ls) = (case process_line s l of Inl e \<Rightarrow> Inl e | Inr s' \<Rightarrow> run s' ls)"

definition extract_material_properties :: "string list \<Rightarrow> error + material_set" where
  "extract_material_properties lines =
     (case run init lines of Inl e \<Rightarrow> Inl e | Inr s \<Rightarrow> Inr (materials s))"

section \<open>Notions used in the statements\<close>

text \<open>
  The keyword lines that open a data-bearing property, in the order in which the
  extractor tests them, each with its property key and the attribute it looks for on the
  keyword line (or the exception that looking for it raises). \<open>recognised line\<close> is
  the branch a keyword line takes, if any.
\<close>

definition property_keywords ::
  "(string \<times> string \<times> (string \<Rightarrow> error + (string \<times> pyval) option)) list" where
  "property_keywords =
     [(''*ELASTIC'', ''Elastic'',
         \<lambda>line. Inr (attr ''Elastic_Type'' (search_attr ''type'' token_char line))),
      (''*PLASTIC'', ''Plastic'',
         \<lambda>line. Inr (attr ''Plastic_Hardening'' (search_attr ''hardening'' token_char line))),
      (''*DENSITY'', ''Density'', \<lambda>line. Inr None),
      (''*CONDUCTIVITY'', ''Conductivity'', \<lambda>line. Inr None),
      (''*SPECIFIC HEAT'', ''Specific_Heat'', \<lambda>line. Inr None),
      (''*EXPANSION'', ''Expansion'',
         \<lambda>line. Inr (attr ''Expansion_Type'' (search_attr ''type'' token_char line))),
      (''*DAMPING'', ''Damping'', \<lambda>line. Inr None),
      (''*HYPERELASTIC'', ''Hyperelastic'', \<lambda>line. Inr (hyperelastic_model line)),
      (''*VISCOELASTIC'', ''Viscoelastic'', \<lambda>line. Inr None),
      (''*USER MATERIAL'', ''User_Material'', constants_attr)]"

definition recognised :: "string \<Rightarrow> (string \<times> (error + (string \<times> pyval) option)) option" where
  "recognised line =
     (case find (\<lambda>(kw, p, ex). startswith (upper line) kw) property_keywords of
        None \<Rightarrow> None
      | Some (kw, p, ex) \<Rightarrow> Some (p, ex line))"

definition non_keyword :: "string \<Rightarrow> bool" where
  "non_keyword raw = (case clean raw of None \<Rightarrow> True | Some line \<Rightarrow> \<not> startswith line ''*'')"

definition material_start :: "string \<Rightarrow> string option" where
  "material_start raw =
     (case clean raw of
        None \<Rightarrow> None
      | Some line \<Rightarrow>
          if startswith (upper line) ''*MATERIAL'' then search_attr ''name'' token_char line
          else None)"

definition rows_of :: "string list \<Rightarrow> pyval list" where
  "rows_of ds =
     concat (map (\<lambda>d. case clean d of
                         None \<Rightarrow> []
                       | Some line \<Rightarrow>
                           if values_of line = [] then [] else [row_of (values_of line)]) ds)"

definition prop_of :: "material_set \<Rightarrow> string \<Rightarrow> string \<Rightarrow> pyval option" where
  "prop_of ms m p = (case dict_get ms m of None \<Rightarrow> None | Some props \<Rightarrow> dict_get props p)"

text \<open>The branches of a keyword line that open no data-bearing property.\<close>

definition other_keyword :: "state \<Rightarrow> string \<Rightarrow> string \<Rightarrow> error + state" where
  "other_keyword s cm line =
     (if startswith (upper line) ''*DEPVAR'' then
        (case search_digits line of
           None \<Rightarrow> Inr (s\<lparr>reading_data := False\<rparr>)
         | Some g \<Rightarrow>
             (case py_int g of
                Inl e \<Rightarrow> Inl e
              | Inr n \<Rightarrow>
                  (case set_prop (materials s) cm ''Depvar'' (PInt n) of
                     Inl e \<Rightarrow> Inl e
                   | Inr ms \<Rightarrow> Inr (s\<lparr>materials := ms, reading_data := False\<rparr>))))
      else if list_ex (startswith (upper line)) non_material_keywords then
        Inr (s\<lparr>current_material := None, current_property := None, reading_data := False\<rparr>)
      else Inr (s\<lparr>reading_data := False\<rparr>))"

text \<open>A state in which the property \<open>Elastic\<close> of the material \<open>Steel\<close> is being read.\<close>

definition reading_steel :: state where
  "reading_steel =
     \<lparr>materials = [(''Steel'', [(''Elastic'', PList [PList [PFloat (Finite 1)]])])],
      current_material = Some ''Steel'', current_property = Some ''Elastic'',
      reading_data = True\<rparr>"

text \<open>The state after the line \<open>*MATERIAL, name=M\<close> at the start of a file.\<close>

definition in_material_M :: state where
  "in_material_M =
     \<lparr>materials = [(''M'', [])], current_material = Some ''M'', current_property = None,
      reading_data = False\<rparr>"

text \<open>The six lines of the boundary scenario.\<close>

definition steel_lines :: "string list" where
  "steel_lines =
     [''*MATERIAL, name=Steel'', ''*ELASTIC, TYPE=ISOTROPIC'', ''210000.0, 0.3'',
      ''*DENSITY'', ''7850.0'', ''*STEP'']"


text \<open>
  The states the loop can be in: the current material is a non-empty name registered in
  the dictionary, and while data is being read the current property names a list of that
  material. With no current material no data is read.
\<close>

definition wf :: "state \<Rightarrow> bool" where
  "wf s =
     (case current_material s of
        None \<Rightarrow> \<not> reading_data s
      | Some m \<Rightarrow>
          m \<noteq> [] \<and>
          (case dict_get (materials s) m of
             None \<Rightarrow> False
           | Some props \<Rightarrow>
               (if reading_data s then
                  (case current_property s of
                     None \<Rightarrow> False
                   | Some p \<Rightarrow>
                       p \<noteq> [] \<and> (case dict_get props p of Some (PList rows) \<Rightarrow> True | _ \<Rightarrow> False))
                else True)))"

text \<open>The properties of a material after a recognised keyword line.\<close>

definition props_after :: "string \<Rightarrow> (string \<times> pyval) option \<Rightarrow> material \<Rightarrow> material" where
  "props_after p a props =
     (case a of
        None \<Rightarrow> dict_set props p (PList [])
      | Some (k, v) \<Rightarrow> dict_set (dict_set props p (PList [])) k v)"

section \<open>\<open>save_to_csv\<close>\<close>

text \<open>
  A row of the export is the dictionary the function builds for it. \<open>str\<close> on a value
  is a parameter, \<open>py_str\<close>: the rendering of floats is outside the model. The result is
  the table handed to the CSV writer, the header and one list of cells for each row, or
  \<open>None\<close> when there is no row and no file is written; how the writer quotes and prints
  a cell is not modelled.
\<close>

type_synonym csv_row = "(string, pyval) pydict"

definition digit_char :: "nat \<Rightarrow> char" where
  "digit_char d = ''0123456789'' ! d"

text \<open>The decimal digits of a natural number, as the f-string \<^verbatim>\<open>f'Value_{i+1}'\<close> prints
  them.\<close>

fun show_nat :: "nat \<Rightarrow> string" where
  "show_nat n = (if n < 10 then [digit_char n] else show_nat (n div 10) @ [digit_char (n mod 10)])"

definition value_key :: "nat \<Rightarrow> string" where
  "value_key i = ''Value_'' @ show_nat i"

definition list_row :: "(pyval \<Rightarrow> string) \<Rightarrow> string \<Rightarrow> string \<Rightarrow> nat \<Rightarrow> pyval \<Rightarrow> csv_row" where
  "list_row py_str mat_name prop_name idx values =
     (let row = [(''Material'', PStr mat_name), (''Property'', PStr prop_name),
                 (''Row_Index'', PInt (int idx)), (''Values'', PStr (py_str values))]
      in case values of
           PList vals \<Rightarrow>
             foldl (\<lambda>row (i, val). dict_set row (value_key (i + 1)) val) row (enumerate 0 vals)
         | _ \<Rightarrow> row)"

definition scalar_row :: "(pyval \<Rightarrow> string) \<Rightarrow> string \<Rightarrow> string \<Rightarrow> pyval \<Rightarrow> csv_row" where
  "scalar_row py_str mat_name prop_name prop_value =
     [(''Material'', PStr mat_name), (''Property'', PStr prop_name),
      (''Row_Index'', PInt 0), (''Values'', PStr (py_str prop_value))]"

definition property_rows :: "(pyval \<Rightarrow> string) \<Rightarrow> string \<Rightarrow> string \<times> pyval \<Rightarrow> csv_row list" where
  "property_rows py_str mat_name entry =
     (case entry of
        (prop_name, PList rows) \<Rightarrow>
          map (\<lambda>(idx, values). list_row py_str mat_name prop_name idx values) (enumerate 0 rows)
      | (prop_name, prop_value) \<Rightarrow> [scalar_row py_str mat_name prop_name prop_value])"

definition material_rows :: "(pyval \<Rightarrow> string) \<Rightarrow> string \<times> material \<Rightarrow> csv_row list" where
  "material_rows py_str mat =
     (case mat of (mat_name, properties) \<Rightarrow> concat (map (property_rows py_str mat_name) properties))"

text \<open>The list \<open>rows\<close> after the two nested loops.\<close>

definition flatten :: "(pyval \<Rightarrow> string) \<Rightarrow> material_set \<Rightarrow> csv_row list" where
  "flatten py_str mats = concat (map (material_rows py_str) mats)"

definition value_cols :: "csv_row \<Rightarrow> string list" where
  "value_cols row = filter (\<lambda>k. startswith k ''Value_'') (map fst row)"

definition max_values :: "csv_row list \<Rightarrow> nat" where
  "max_values rows =
     foldl (\<lambda>m row. if length (value_cols row) > m then length (value_cols row) else m) 0 rows"

definition fieldnames :: "csv_row list \<Rightarrow> string list" where
  "fieldnames rows =
     [''Material'', ''Property'', ''Row_Index'', ''Values'']
       @ map value_key [1 ..< max_values rows + 1]"

text \<open>
  \<open>csv.DictWriter\<close> with its defaults: a key of the row that is no field name raises
  \<open>ValueError\<close>, and a field name that is no key of the row gives the empty string.
\<close>

definition dict_to_list :: "string list \<Rightarrow> csv_row \<Rightarrow> error + pyval list" where
  "dict_to_list names rowdict =
     (if list_ex (\<lambda>k. k \<notin> set names) (map fst rowdict) then Inl ValueError
      else Inr (map (\<lambda>key. case dict_get rowdict key of Some v \<Rightarrow> v | None \<Rightarrow> PStr '''') names))"

fun writerows :: "string list \<Rightarrow> csv_row list \<Rightarrow> error + pyval list list" where
  "writerows names [] = Inr []"
| "writerows names (r # rs) =
     (case dict_to_list names r of
        Inl e \<Rightarrow> Inl e
      | Inr cells \<Rightarrow>
          (case writerows names rs of Inl e \<Rightarrow> Inl e | Inr body \<Rightarrow> Inr (cells # body)))"

definition save_to_csv ::
  "(pyval \<Rightarrow> string) \<Rightarrow> material_set \<Rightarrow> error + (string list \<times> pyval list list) option" where
  "save_to_csv py_str mats =
     (let rows = flatten py_str mats
      in if rows \<noteq> [] then
           (case writerows (fieldnames rows) rows of
              Inl e \<Rightarrow> Inl e
            | Inr body \<Rightarrow> Inr (Some (fieldnames rows, body)))
         else Inr None)"

text \<open>
  The flat records in the words of the specification: in the order of the materials and
  of their properties, one record for each row of a list-valued property and one record
  for a scalar property. A record is the material, the property, the row index, the row
  (or the scalar) and its positional fields; a scalar has none.
\<close>

type_synonym flat_record = "string \<times> string \<times> nat \<times> pyval \<times> pyval list"

definition positional :: "pyval \<Rightarrow> pyval list" where
  "positional r = (case r of PList fs \<Rightarrow> fs | _ \<Rightarrow> [])"

definition property_records :: "string \<Rightarrow> string \<times> pyval \<Rightarrow> flat_record list" where
  "property_records m entry =
     (case entry of
        (p, PList rows) \<Rightarrow> map (\<lambda>(i, r). (m, p, i, r, positional r)) (enumerate 0 rows)
      | (p, v) \<Rightarrow> [(m, p, 0, v, [])])"

definition records :: "material_set \<Rightarrow> flat_record list" where
  "records mats = concat (map (\<lambda>(m, props). concat (map (property_records m) props)) mats)"

definition width :: "flat_record \<Rightarrow> nat" where
  "width rec = (case rec of (m, p, i, r, fs) \<Rightarrow> length fs)"

definition max_width :: "material_set \<Rightarrow> nat" where
  "max_width mats = Max (set (0 # map width (records mats)))"

definition header :: "nat \<Rightarrow> string list" where
  "header n = [''Material'', ''Property'', ''Row_Index'', ''Values''] @ map value_key [1 ..< n + 1]"

definition record_cells :: "(pyval \<Rightarrow> string) \<Rightarrow> nat \<Rightarrow> flat_record \<Rightarrow> pyval list" where
  "record_cells py_str n rec =
     (case rec of
        (m, p, i, r, fs) \<Rightarrow>
          [PStr m, PStr p, PInt (int i), PStr (py_str r)] @ fs @ replicate (n - length fs) (PStr ''''))"

text \<open>The dictionary of a flat record: the four fixed keys, then one key for each
  positional field.\<close>

definition keyed :: "pyval list \<Rightarrow> csv_row" where
  "keyed fs = map (\<lambda>(i, v). (value_key (i + 1), v)) (enumerate 0 fs)"

definition record_row :: "(pyval \<Rightarrow> string) \<Rightarrow> flat_record \<Rightarrow> csv_row" where
  "record_row py_str rec =
     (case rec of
        (m, p, i, r, fs) \<Rightarrow>
          [(''Material'', PStr m), (''Property'', PStr p), (''Row_Index'', PInt (int i)),
           (''Values'', PStr (py_str r))] @ keyed fs)"

text \<open>A material set with two materials, for the examples of the export.\<close>

definition two_materials :: material_set where
  "two_materials =
     [(''Steel'',
       [(''Elastic'', PList [PList [PFloat (Finite 210000), PFloat (Finite (3 / 10))]]),
        (''Elastic_Type'', PStr ''ISOTROPIC''),
        (''Plastic'', PList [PList [PFloat (Finite 250), PFloat (Finite 0), PFloat (Finite 20)],
                             PList [PStr ''A'']])]),
      (''Rubber'', [(''Depvar'', PInt 15)])]"

text \<open>A keyword line whose digits \<open>int\<close> refuses: a \<open>*USER MATERIAL\<close> line with a
  \<open>constants=\<close> run, or a \<open>*DEPVAR\<close> line with a first run, of more than 4300 digits.\<close>

definition raising :: "string \<Rightarrow> bool" where
  "raising raw =
     (case clean raw of
        None \<Rightarrow> False
      | Some line \<Rightarrow>
          (case recognised line of
             Some (p, r) \<Rightarrow> (case r of Inl e \<Rightarrow> True | Inr a \<Rightarrow> False)
           | None \<Rightarrow>
               startswith (upper line) ''*DEPVAR''
               \<and> (case search_digits line of
                      None \<Rightarrow> False
                    | Some g \<Rightarrow> int_max_str_digits < length g)))"

text \<open>A line of 4301 digits after the given text.\<close>

definition long_digits :: "string \<Rightarrow> string" where
  "long_digits text = text @ replicate 4301 CHR ''1''"

text \<open>
  Kinds of raw lines: a keyword line, a \<open>*MATERIAL\<close> line on which no name is found, and
  a line that opens the data-bearing property \<open>p\<close>.
\<close>

definition keyword :: "string \<Rightarrow> bool" where
  "keyword raw = (case clean raw of None \<Rightarrow> False | Some line \<Rightarrow> startswith line ''*'')"

definition unnamed_material :: "string \<Rightarrow> bool" where
  "unnamed_material raw =
     (case clean raw of
        None \<Rightarrow> False
      | Some line \<Rightarrow>
          startswith (upper line) ''*MATERIAL'' \<and> search_attr ''name'' token_char line = None)"

definition activates :: "string \<Rightarrow> string \<Rightarrow> bool" where
  "activates p raw =
     (case clean raw of
        None \<Rightarrow> False
      | Some line \<Rightarrow> (case recognised line of None \<Rightarrow> False | Some (p', r) \<Rightarrow> p' = p))"

text \<open>
  \<open>never_opens m p s ls\<close>: when the lines \<open>ls\<close> are read from the state \<open>s\<close>, none of
  them is a keyword line that opens the property \<open>p\<close> and is read while \<open>m\<close> is the
  current material.
\<close>

fun never_opens :: "string \<Rightarrow> string \<Rightarrow> state \<Rightarrow> string list \<Rightarrow> bool" where
  "never_opens m p s [] = True"
| "never_opens m p s (l # ls) =
     (\<not> (current_material s = Some m \<and> activates p l)
      \<and> (case process_line s l of Inl e \<Rightarrow> True | Inr s' \<Rightarrow> never_opens m p s' ls))"

text \<open>No data line can reach the property \<open>p\<close> of the material \<open>m\<close> in the state \<open>s\<close>.\<close>

definition stale :: "string \<Rightarrow> string \<Rightarrow> state \<Rightarrow> bool" where
  "stale m p s =
     (\<not> (reading_data s \<and> current_material s = Some m \<and> current_property s = Some p))"

text \<open>
  Two states that the loop cannot tell apart as far as the material \<open>x\<close> is concerned:
  the same three variables, the same entry for \<open>x\<close>, and the same entry for the current
  material.
\<close>

definition agree :: "string \<Rightarrow> state \<Rightarrow> state \<Rightarrow> bool" where
  "agree x s t =
     (current_material s = current_material t \<and> current_property s = current_property t
      \<and> reading_data s = reading_data t
      \<and> dict_get (materials s) x = dict_get (materials t) x
      \<and> (case current_material s of
            None \<Rightarrow> True
          | Some m \<Rightarrow> dict_get (materials s) m = dict_get (materials t) m))"

text \<open>
  A block of property sections, in the words of the specification. A section is a
  recognised property keyword line, on which looking for the attribute raises nothing,
  and the non-keyword lines that follow it. It gives the material an empty row list under
  the property key, the attribute of the keyword line if there is one, and then the rows
  of its data lines under the property key. The properties of a block are those that
  its sections give to the empty material, one after the other.
\<close>

definition section_ok :: "string \<times> string list \<Rightarrow> bool" where
  "section_ok sec =
     (case sec of
        (kw, ds) \<Rightarrow>
          (case clean kw of
             None \<Rightarrow> False
           | Some line \<Rightarrow>
               (case recognised line of
                  Some (p, Inr a) \<Rightarrow> True
                | _ \<Rightarrow> False))
          \<and> list_all non_keyword ds)"

definition section_props :: "material \<Rightarrow> string \<times> string list \<Rightarrow> material" where
  "section_props props sec =
     (case sec of
        (kw, ds) \<Rightarrow>
          (case clean kw of
             None \<Rightarrow> props
           | Some line \<Rightarrow>
               (case recognised line of
                  Some (p, Inr a) \<Rightarrow> dict_set (props_after p a props) p (PList (rows_of ds))
                | _ \<Rightarrow> props)))"

definition block_props :: "(string \<times> string list) list \<Rightarrow> material" where
  "block_props secs = foldl section_props [] secs"

definition block_lines :: "(string \<times> string list) list \<Rightarrow> string list" where
  "block_lines secs = concat (map (\<lambda>(kw, ds). kw # ds) secs)"

section \<open>Facts about dictionaries\<close>

lemma dict_get_set: "dict_get (dict_set d k v) k' = (if k' = k then Some v else dict_get d k')"
  by (induction d) (auto simp: dict_get_def)

lemma dict_set_same: "dict_get d k = Some v \<Longrightarrow> dict_set d k v = d"
  by (induction d) (auto simp: dict_get_def split: if_splits)

lemma dict_set_twice: "dict_set (dict_set d k v) k w = dict_set d k w"
  by (induction d) auto

section \<open>Prefixes and keyword lines\<close>

lemma upper_char_star: "upper_char c = CHR ''*'' \<longleftrightarrow> c = CHR ''*''"
  by (auto simp: upper_char_def lowercase_def uppercase_def split: option.splits if_splits)

lemma startswith_upper_star:
  "startswith (upper line) (CHR ''*'' # kw) \<Longrightarrow> startswith line ''*''"
  by (cases line) (auto simp: upper_def upper_char_star)

lemma startswith_comparable:
  "startswith s p \<Longrightarrow> startswith s q \<Longrightarrow> startswith p q \<or> startswith q p"
proof (induction s p arbitrary: q rule: startswith.induct)
  case (1 s)
  then show ?case by simp
next
  case (2 p ps)
  then show ?case by simp
next
  case (3 c cs p ps)
  then show ?case by (cases q) auto
qed

lemma startswith_other:
  "startswith s p \<Longrightarrow> \<not> startswith p q \<Longrightarrow> \<not> startswith q p \<Longrightarrow> \<not> startswith s q"
  using startswith_comparable by blast

lemma find_SomeD: "find P xs = Some x \<Longrightarrow> x \<in> set xs \<and> P x"
  by (induction xs) (auto split: if_splits)

lemma recognised_keyword:
  assumes "recognised line = Some pa"
  obtains kw p ex where "(kw, p, ex) \<in> set property_keywords"
    and "startswith (upper line) kw" and "pa = (p, ex line)"
proof -
  obtain kw p ex where
    f: "find (\<lambda>(kw, p, ex). startswith (upper line) kw) property_keywords = Some (kw, p, ex)"
    and pa: "pa = (p, ex line)"
    using assms by (auto simp: recognised_def split: option.splits)
  have "(kw, p, ex) \<in> set property_keywords" and "startswith (upper line) kw"
    using find_SomeD[OF f] by auto
  with pa that show ?thesis by blast
qed

lemma recognised_star:
  assumes "recognised line = Some pa"
  shows "startswith line ''*''"
proof -
  obtain kw p ex where "(kw, p, ex) \<in> set property_keywords" and sw: "startswith (upper line) kw"
    using assms by (rule recognised_keyword)
  then obtain r where "kw = CHR ''*'' # r"
    by (auto simp: property_keywords_def)
  with sw show ?thesis
    using startswith_upper_star by blast
qed

lemma recognised_not_material:
  assumes "recognised line = Some pa"
  shows "\<not> startswith (upper line) ''*MATERIAL''"
proof -
  obtain kw p ex where m: "(kw, p, ex) \<in> set property_keywords" and sw: "startswith (upper line) kw"
    using assms by (rule recognised_keyword)
  from m have "\<not> startswith kw ''*MATERIAL'' \<and> \<not> startswith ''*MATERIAL'' kw"
    by (auto simp: property_keywords_def)
  with sw show ?thesis
    using startswith_other by blast
qed

lemma recognised_unfold:
  "recognised line =
     (if startswith (upper line) ''*ELASTIC'' then
        Some (''Elastic'', Inr (attr ''Elastic_Type'' (search_attr ''type'' token_char line)))
      else if startswith (upper line) ''*PLASTIC'' then
        Some (''Plastic'',
          Inr (attr ''Plastic_Hardening'' (search_attr ''hardening'' token_char line)))
      else if startswith (upper line) ''*DENSITY'' then Some (''Density'', Inr None)
      else if startswith (upper line) ''*CONDUCTIVITY'' then Some (''Conductivity'', Inr None)
      else if startswith (upper line) ''*SPECIFIC HEAT'' then Some (''Specific_Heat'', Inr None)
      else if startswith (upper line) ''*EXPANSION'' then
        Some (''Expansion'', Inr (attr ''Expansion_Type'' (search_attr ''type'' token_char line)))
      else if startswith (upper line) ''*DAMPING'' then Some (''Damping'', Inr None)
      else if startswith (upper line) ''*HYPERELASTIC'' then
        Some (''Hyperelastic'', Inr (hyperelastic_model line))
      else if startswith (upper line) ''*VISCOELASTIC'' then Some (''Viscoelastic'', Inr None)
      else if startswith (upper line) ''*USER MATERIAL'' then
        Some (''User_Material'', constants_attr line)
      else None)"
  by (simp add: recognised_def property_keywords_def)

lemma keyword_line_cases:
  "keyword_line s cm line =
     (case recognised line of
        Some (p, a) \<Rightarrow> start_property s cm p a
      | None \<Rightarrow> other_keyword s cm line)"
  unfolding recognised_unfold keyword_line_def Let_def other_keyword_def
  by simp

lemma recognised_attr_key:
  assumes "recognised line = Some (p, Inr (Some (k, v)))"
  shows "k \<noteq> p"
proof -
  obtain kw ex where m: "(kw, p, ex) \<in> set property_keywords"
    and e: "ex line = Inr (Some (k, v))"
    using assms by (auto elim!: recognised_keyword)
  then show ?thesis
    by (auto simp: property_keywords_def attr_def hyperelastic_model_def constants_attr_def
        split: option.splits sum.splits)
qed

lemma depvar_not_recognised:
  assumes "startswith (upper line) ''*DEPVAR''"
  shows "recognised line = None"
proof (cases "recognised line")
  case None
  then show ?thesis .
next
  case (Some pa)
  then obtain kw p ex where m: "(kw, p, ex) \<in> set property_keywords"
    and sw: "startswith (upper line) kw"
    by (rule recognised_keyword)
  from m have "\<not> startswith kw ''*DEPVAR'' \<and> \<not> startswith ''*DEPVAR'' kw"
    by (auto simp: property_keywords_def)
  with sw assms show ?thesis
    using startswith_comparable by blast
qed

section \<open>One line\<close>

lemma process_line_skip: "clean raw = None \<Longrightarrow> process_line s raw = Inr s"
  by (simp add: process_line_def)

lemma process_line_non_keyword:
  assumes "clean raw = Some line" "\<not> startswith line ''*''"
  shows "process_line s raw =
     (if truthy (current_material s) \<and> reading_data s \<and> truthy (current_property s) then
        (case (current_material s, current_property s) of
           (Some cm, Some cp) \<Rightarrow> data_line s cm cp line
         | _ \<Rightarrow> Inr s)
      else Inr s)"
proof -
  have "\<not> startswith (upper line) ''*MATERIAL''"
    using assms(2) startswith_upper_star by blast
  then show ?thesis
    using assms by (simp add: process_line_def)
qed

lemma process_line_material:
  assumes "clean raw = Some line" "startswith (upper line) ''*MATERIAL''"
  shows "process_line s raw =
     (case search_attr ''name'' token_char line of
        Some name \<Rightarrow>
          Inr (s\<lparr>materials := dict_set (materials s) name [], current_material := Some name,
                 current_property := None, reading_data := False\<rparr>)
      | None \<Rightarrow> Inr s)"
  using assms by (simp add: process_line_def)

lemma process_line_keyword:
  assumes "clean raw = Some line" "\<not> startswith (upper line) ''*MATERIAL''"
    and "startswith line ''*''" "current_material s = Some cm" "cm \<noteq> []"
  shows "process_line s raw = keyword_line s cm line"
  using assms by (simp add: process_line_def truthy_def)

lemma process_line_idle:
  assumes "current_material s = None" "material_start raw = None"
  shows "process_line s raw = Inr s"
  using assms
  by (auto simp: process_line_def material_start_def truthy_def split: option.splits if_splits)

lemma run_append:
  "run s (xs @ ys) = (case run s xs of Inl e \<Rightarrow> Inl e | Inr s' \<Rightarrow> run s' ys)"
  by (induction xs arbitrary: s) (auto split: sum.splits)

lemma run_idle:
  assumes "current_material s = None" "\<forall>l\<in>set ls. material_start l = None"
  shows "run s ls = Inr s"
  using assms by (induction ls) (auto simp: process_line_idle)

lemma process_line_closed:
  assumes "non_keyword raw" "\<not> reading_data s"
  shows "process_line s raw = Inr s"
proof (cases "clean raw")
  case None
  then show ?thesis by (rule process_line_skip)
next
  case (Some line)
  with assms(1) have "\<not> startswith line ''*''"
    by (simp add: non_keyword_def)
  from process_line_non_keyword[OF Some this] assms(2) show ?thesis
    by simp
qed

lemma run_closed:
  assumes "\<forall>d\<in>set ds. non_keyword d" "\<not> reading_data s"
  shows "run s ds = Inr s"
  using assms by (induction ds) (auto simp: process_line_closed)

section \<open>Data lines\<close>

lemma data_line_append:
  assumes "dict_get (materials s) cm = Some props" "dict_get props cp = Some (PList rows)"
    and "values_of line \<noteq> []"
  shows "data_line s cm cp line =
     Inr (s\<lparr>materials := dict_set (materials s) cm
                (dict_set props cp (PList (rows @ [row_of (values_of line)])))\<rparr>)"
  using assms by (simp add: data_line_def append_row_def)

lemma those_map_Some: "those xs = Some ys \<longleftrightarrow> xs = map Some ys"
  by (induction xs arbitrary: ys) (auto split: option.splits)

lemma those_None: "those xs = None \<longleftrightarrow> None \<in> set xs"
  by (induction xs) (auto split: option.splits)

lemma row_of_cases:
  "(\<exists>fs. map float vs = map Some fs \<and> row_of vs = PList (map PFloat fs))
   \<or> ((\<exists>v\<in>set vs. float v = None) \<and> row_of vs = PList (map PStr vs))"
proof (cases "those (map float vs)")
  case None
  then have "None \<in> set (map float vs)" by (simp add: those_None)
  then have "\<exists>v\<in>set vs. float v = None" by force
  with None show ?thesis by (simp add: row_of_def)
next
  case (Some fs)
  then have "map float vs = map Some fs" by (simp add: those_map_Some)
  moreover from Some have "row_of vs = PList (map PFloat fs)" by (simp add: row_of_def)
  ultimately show ?thesis by blast
qed

text \<open>
  C10. A non-keyword line all of whose comma-separated tokens are empty once trimmed
  appends no row: the state, and with it the whole material set, is unchanged, no
  exception is raised, and the loop goes on with the next line.
\<close>

theorem empty_tokens_no_row:
  assumes "clean raw = Some line" and "\<not> startswith line ''*''"
    and "\<forall>t\<in>set (split_on CHR '','' line). strip t = []"
  shows "process_line s raw = Inr s \<and> run s (raw # rest) = run s rest"
proof -
  from assms(3) have "values_of line = []"
    by (simp add: values_of_def filter_empty_conv)
  with assms(1,2) have "process_line s raw = Inr s"
    by (simp add: process_line_non_keyword data_line_def split: option.splits)
  then show ?thesis by simp
qed

theorem empty_tokens_no_row_witness:
  "clean '' , ,, '' = Some '', ,,'' \<and> process_line reading_steel '' , ,, '' = Inr reading_steel
   \<and> run reading_steel ['' , ,, '', ''2.0''] = run reading_steel [''2.0'']"
proof -
  have c: "clean '' , ,, '' = Some '', ,,''" by code_simp
  have n: "\<not> startswith '', ,,'' ''*''" by simp
  have e: "\<forall>t\<in>set (split_on CHR '','' '', ,,''). strip t = []" by code_simp
  from empty_tokens_no_row[OF c n e, of reading_steel "[''2.0'']"] c show ?thesis
    by simp
qed

text \<open>
  C4. A data line read while a property is active is split on commas, every token is
  trimmed and the empty ones are dropped. When tokens remain, exactly one row is appended
  to the active property: the floats of the tokens when every token converts, and
  otherwise all the tokens as strings, never a mixture. The line \<open>A, B, 1.0\<close> gives the
  string row \<open>["A", "B", "1.0"]\<close>.
\<close>

theorem data_line_row:
  assumes "clean raw = Some line" and "\<not> startswith line ''*''"
    and "current_material s = Some cm" and "cm \<noteq> []"
    and "current_property s = Some cp" and "cp \<noteq> []" and "reading_data s"
    and "dict_get (materials s) cm = Some props" and "dict_get props cp = Some (PList rows)"
    and "vs = filter (\<lambda>v. v \<noteq> []) (map strip (split_on CHR '','' line))" and "vs \<noteq> []"
  shows "\<exists>row. process_line s raw =
            Inr (s\<lparr>materials := dict_set (materials s) cm
                       (dict_set props cp (PList (rows @ [row])))\<rparr>)
          \<and> ((\<exists>fs. map float vs = map Some fs \<and> row = PList (map PFloat fs))
             \<or> ((\<exists>v\<in>set vs. float v = None) \<and> row = PList (map PStr vs)))
          \<and> (line = ''A, B, 1.0'' \<longrightarrow> row = PList [PStr ''A'', PStr ''B'', PStr ''1.0''])"
proof -
  have abc: "row_of (values_of ''A, B, 1.0'') = PList [PStr ''A'', PStr ''B'', PStr ''1.0'']"
    by code_simp
  have vs: "values_of line = vs"
    using assms(10) by (simp add: values_of_def)
  have "process_line s raw = data_line s cm cp line"
    using assms(3-7) by (simp add: process_line_non_keyword[OF assms(1,2)] truthy_def)
  also have "\<dots> = Inr (s\<lparr>materials := dict_set (materials s) cm
                           (dict_set props cp (PList (rows @ [row_of vs])))\<rparr>)"
    using data_line_append[OF assms(8,9), of line] vs assms(11) by simp
  finally show ?thesis
    using row_of_cases[of vs] abc vs by blast
qed

theorem data_line_row_witness:
  "process_line reading_steel ''A, B, 1.0'' =
     Inr (reading_steel\<lparr>materials :=
       [(''Steel'', [(''Elastic'', PList [PList [PFloat (Finite 1)],
                                          PList [PStr ''A'', PStr ''B'', PStr ''1.0'']])])]\<rparr>)"
proof -
  let ?vs = "[''A'', ''B'', ''1.0'']"
  let ?props = "[(''Elastic'', PList [PList [PFloat (Finite 1)]])]"
  have c: "clean ''A, B, 1.0'' = Some ''A, B, 1.0''" by code_simp
  have n: "\<not> startswith ''A, B, 1.0'' ''*''" by simp
  have v: "?vs = filter (\<lambda>v. v \<noteq> []) (map strip (split_on CHR '','' ''A, B, 1.0''))"
    by code_simp
  have m: "current_material reading_steel = Some ''Steel''"
    and p: "current_property reading_steel = Some ''Elastic''"
    and r: "reading_data reading_steel"
    and g: "dict_get (materials reading_steel) ''Steel'' = Some ?props"
    and g': "dict_get ?props ''Elastic'' = Some (PList [PList [PFloat (Finite 1)]])"
    by (simp_all add: reading_steel_def dict_get_def)
  have "\<exists>row. process_line reading_steel ''A, B, 1.0'' =
       Inr (reading_steel\<lparr>materials := dict_set (materials reading_steel) ''Steel''
              (dict_set ?props ''Elastic'' (PList ([PList [PFloat (Finite 1)]] @ [row])))\<rparr>)
     \<and> ((\<exists>fs. map float ?vs = map Some fs \<and> row = PList (map PFloat fs))
           \<or> ((\<exists>v\<in>set ?vs. float v = None) \<and> row = PList (map PStr ?vs)))
     \<and> (''A, B, 1.0'' = ''A, B, 1.0'' \<longrightarrow> row = PList [PStr ''A'', PStr ''B'', PStr ''1.0''])"
    (is "\<exists>row. ?P row")
    by (rule data_line_row[OF c n m _ p _ r g g' v]) simp_all
  then obtain row where row: "?P row" by (rule exE)
  then have "row = PList [PStr ''A'', PStr ''B'', PStr ''1.0'']" by simp
  with row show ?thesis by (simp add: reading_steel_def)
qed

text \<open>
  C3. The six lines of the scenario give the material \<open>Steel\<close> with the row
  \<open>[210000.0, 0.3]\<close> under \<open>Elastic\<close>, \<open>ISOTROPIC\<close> under \<open>Elastic_Type\<close> and the row
  \<open>[7850.0]\<close> under \<open>Density\<close>. After \<open>*STEP\<close> no material is current: whatever lines
  follow, as long as none of them starts a material, the result is the same.
\<close>

theorem steel_scenario:
  assumes "\<forall>l\<in>set later. material_start l = None"
  shows "extract_material_properties (steel_lines @ later) =
     Inr [(''Steel'',
           [(''Elastic'', PList [PList [PFloat (Finite 210000), PFloat (Finite (3 / 10))]]),
            (''Elastic_Type'', PStr ''ISOTROPIC''),
            (''Density'', PList [PList [PFloat (Finite 7850)]])])]"
proof -
  let ?ms = "[(''Steel'',
           [(''Elastic'', PList [PList [PFloat (Finite 210000), PFloat (Finite (3 / 10))]]),
            (''Elastic_Type'', PStr ''ISOTROPIC''),
            (''Density'', PList [PList [PFloat (Finite 7850)]])])]"
  let ?s = "\<lparr>materials = ?ms, current_material = None, current_property = None,
             reading_data = False\<rparr>"
  have six: "run init steel_lines = Inr ?s"
    by code_simp
  have "run ?s later = Inr ?s"
    using assms by (intro run_idle) auto
  with six show ?thesis
    by (simp add: extract_material_properties_def run_append)
qed

theorem steel_scenario_witness:
  "extract_material_properties (steel_lines @ [''1.0, 2.0'', ''*ELASTIC'', ''3.0'', ''*MATERIAL'']) =
     Inr [(''Steel'',
           [(''Elastic'', PList [PList [PFloat (Finite 210000), PFloat (Finite (3 / 10))]]),
            (''Elastic_Type'', PStr ''ISOTROPIC''),
            (''Density'', PList [PList [PFloat (Finite 7850)]])])]"
proof -
  have "\<forall>l\<in>set [''1.0, 2.0'', ''*ELASTIC'', ''3.0'', ''*MATERIAL'']. material_start l = None"
    by code_simp
  then show ?thesis by (rule steel_scenario)
qed

section \<open>The keys of a row\<close>

declare show_nat.simps [simp del]

lemma digit_val_digit_char:
  assumes "d < 10"
  shows "digit_val (digit_char d) = int d"
proof -
  from assms have "d \<in> {0, 1, 2, 3, 4, 5, 6, 7, 8, 9}" by auto
  then show ?thesis
    by (auto simp: digit_val_def digit_char_def)
qed

lemma int_of_digits_snoc: "int_of_digits (ds @ [c]) = 10 * int_of_digits ds + digit_val c"
  by (simp add: int_of_digits_def)

lemma int_of_digits_show_nat: "int_of_digits (show_nat n) = int n"
proof (induction n rule: show_nat.induct)
  case (1 n)
  show ?case
  proof (cases "n < 10")
    case True
    then show ?thesis
      by (subst show_nat.simps) (simp add: int_of_digits_def digit_val_digit_char)
  next
    case False
    then have "int_of_digits (show_nat n)
        = 10 * int_of_digits (show_nat (n div 10)) + digit_val (digit_char (n mod 10))"
      by (subst show_nat.simps) (simp add: int_of_digits_snoc)
    also have "\<dots> = 10 * int (n div 10) + int (n mod 10)"
      using False 1 by (simp add: digit_val_digit_char)
    also have "\<dots> = int n" by presburger
    finally show ?thesis .
  qed
qed

lemma show_nat_inj:
  assumes "show_nat i = show_nat j"
  shows "i = j"
proof -
  have "int i = int_of_digits (show_nat i)" by (simp only: int_of_digits_show_nat)
  also have "\<dots> = int_of_digits (show_nat j)" by (simp only: assms)
  also have "\<dots> = int j" by (simp only: int_of_digits_show_nat)
  finally show ?thesis by simp
qed

lemma value_key_inj: "value_key i = value_key j \<longleftrightarrow> i = j"
proof
  assume "value_key i = value_key j"
  then have "show_nat i = show_nat j" by (simp add: value_key_def)
  then show "i = j" by (rule show_nat_inj)
qed simp

lemma value_key_prefix: "startswith (value_key i) ''Value_''"
  by (simp add: value_key_def)

lemma value_key_not_fixed:
  "value_key i \<noteq> ''Material''" "value_key i \<noteq> ''Property''"
  "value_key i \<noteq> ''Row_Index''" "value_key i \<noteq> ''Values''"
  by (simp_all add: value_key_def)

lemma dict_set_fresh: "k \<notin> fst ` set d \<Longrightarrow> dict_set d k v = d @ [(k, v)]"
  by (induction d) auto

lemma foldl_dict_set_fresh:
  assumes "distinct (map fst kvs)" and "fst ` set kvs \<inter> fst ` set d = {}"
  shows "foldl (\<lambda>row (k, v). dict_set row k v) d kvs = d @ kvs"
  using assms
proof (induction kvs arbitrary: d)
  case Nil
  then show ?case by simp
next
  case (Cons kv kvs)
  obtain k v where kv: "kv = (k, v)" by (cases kv)
  with Cons.prems have "k \<notin> fst ` set d" by auto
  then have "dict_set d k v = d @ [(k, v)]" by (rule dict_set_fresh)
  moreover have "foldl (\<lambda>row (k, v). dict_set row k v) (d @ [(k, v)]) kvs = (d @ [(k, v)]) @ kvs"
    using Cons.prems kv by (intro Cons.IH) auto
  ultimately show ?case using kv by simp
qed

lemma map_fst_keyed: "map fst (keyed fs) = map value_key [1 ..< length fs + 1]"
proof -
  have "map fst (keyed fs) = map (\<lambda>x. value_key (Suc (fst x))) (enumerate 0 fs)"
    by (simp add: keyed_def case_prod_unfold comp_def)
  also have "\<dots> = map (\<lambda>i. value_key (Suc i)) (map fst (enumerate 0 fs))"
    by (simp only: map_map comp_def)
  also have "\<dots> = map value_key (map Suc [0 ..< length fs])"
    by (simp add: comp_def)
  also have "map Suc [0 ..< length fs] = [1 ..< length fs + 1]"
    by (simp add: map_Suc_upt)
  finally show ?thesis .
qed

lemma distinct_keyed: "distinct (map fst (keyed fs))"
  by (simp add: map_fst_keyed distinct_map inj_on_def value_key_inj)

lemma keyed_keys: "k \<in> fst ` set (keyed fs) \<Longrightarrow> \<exists>i. k = value_key i"
  by (auto simp: keyed_def)

lemma list_row_eq:
  "list_row py_str m p i r = record_row py_str (m, p, i, r, positional r)"
proof (cases r)
  case (PList fs)
  let ?base = "[(''Material'', PStr m), (''Property'', PStr p), (''Row_Index'', PInt (int i)),
                (''Values'', PStr (py_str r))]"
  have "foldl (\<lambda>row (i, val). dict_set row (value_key (i + 1)) val) ?base (enumerate 0 fs)
      = foldl (\<lambda>row (k, v). dict_set row k v) ?base (keyed fs)"
    by (simp add: keyed_def foldl_map case_prod_unfold)
  also have "\<dots> = ?base @ keyed fs"
  proof (rule foldl_dict_set_fresh[OF distinct_keyed])
    show "fst ` set (keyed fs) \<inter> fst ` set ?base = {}"
      by (auto dest!: keyed_keys simp: value_key_not_fixed value_key_not_fixed[THEN not_sym])
  qed
  finally show ?thesis
    using PList by (simp add: list_row_def record_row_def positional_def)
qed (simp_all add: list_row_def record_row_def positional_def keyed_def)

lemma property_rows_eq:
  "property_rows py_str m pv = map (record_row py_str) (property_records m pv)"
proof -
  obtain p v where pv: "pv = (p, v)" by (cases pv)
  show ?thesis
    unfolding pv
    by (cases v)
      (simp_all add: property_rows_def property_records_def list_row_eq scalar_row_def
        record_row_def keyed_def case_prod_unfold)
qed

lemma material_rows_eq:
  "material_rows py_str (m, props)
     = map (record_row py_str) (concat (map (property_records m) props))"
proof -
  have "property_rows py_str m = (\<lambda>pv. map (record_row py_str) (property_records m pv))"
    by (rule ext) (rule property_rows_eq)
  then show ?thesis
    by (simp add: material_rows_def map_concat comp_def)
qed

lemma flatten_eq: "flatten py_str mats = map (record_row py_str) (records mats)"
proof (induction mats)
  case Nil
  then show ?case by (simp add: flatten_def records_def)
next
  case (Cons mat mats)
  obtain m props where "mat = (m, props)" by (cases mat)
  with Cons show ?case
    by (simp add: flatten_def records_def material_rows_eq)
qed

section \<open>The table of the export\<close>

lemma value_cols_record_row:
  "value_cols (record_row py_str rec) = map value_key [1 ..< width rec + 1]"
proof -
  obtain m p i r fs where rec: "rec = (m, p, i, r, fs)" by (cases rec)
  have "filter (\<lambda>k. startswith k ''Value_'') (map fst (keyed fs)) = map fst (keyed fs)"
    by (simp add: map_fst_keyed value_key_prefix)
  then show ?thesis
    by (simp add: rec value_cols_def record_row_def width_def map_fst_keyed)
qed

lemma foldl_max:
  "foldl (\<lambda>m row. if f row > m then f row else m) a rows = fold max (map f rows) (a::nat)"
proof (induction rows arbitrary: a)
  case Nil
  then show ?case by simp
next
  case (Cons r rows)
  have "(if a < f r then f r else a) = max (f r) a" by (simp add: max_def)
  with Cons show ?case by simp
qed

lemma max_values_record_rows:
  "max_values (map (record_row py_str) recs) = Max (set (0 # map width recs))"
proof -
  have "max_values (map (record_row py_str) recs)
      = fold max (map (\<lambda>row. length (value_cols row)) (map (record_row py_str) recs)) 0"
    unfolding max_values_def by (rule foldl_max)
  also have "map (\<lambda>row. length (value_cols row)) (map (record_row py_str) recs) = map width recs"
    by (simp add: value_cols_record_row)
  finally show ?thesis
    by (simp only: Max.set_eq_fold)
qed

lemma map_of_keyed_gen:
  "map_of (map (\<lambda>(i, v). (value_key (i + 1), v)) (enumerate n xs)) (value_key (j + 1))
     = (if n \<le> j \<and> j < n + length xs then Some (xs ! (j - n)) else None)"
proof (induction xs arbitrary: n)
  case Nil
  then show ?case by simp
next
  case (Cons x xs)
  show ?case
  proof (cases "j = n")
    case True
    then show ?thesis by simp
  next
    case False
    then have "value_key (n + 1) \<noteq> value_key (j + 1)"
      by (simp add: value_key_inj)
    with False Cons[of "Suc n"] show ?thesis
      by (auto simp: Suc_diff_le)
  qed
qed

lemma dict_get_keyed:
  "dict_get (keyed fs) (value_key (j + 1)) = (if j < length fs then Some (fs ! j) else None)"
  using map_of_keyed_gen[of 0 fs j] by (simp add: dict_get_def keyed_def)

lemma dict_get_record_row_fixed:
  "dict_get (record_row py_str (m, p, i, r, fs)) ''Material'' = Some (PStr m)"
  "dict_get (record_row py_str (m, p, i, r, fs)) ''Property'' = Some (PStr p)"
  "dict_get (record_row py_str (m, p, i, r, fs)) ''Row_Index'' = Some (PInt (int i))"
  "dict_get (record_row py_str (m, p, i, r, fs)) ''Values'' = Some (PStr (py_str r))"
  by (simp_all add: dict_get_def record_row_def)

lemma dict_get_record_row_value:
  "dict_get (record_row py_str (m, p, i, r, fs)) (value_key (Suc j))
     = (if j < length fs then Some (fs ! j) else None)"
  using dict_get_keyed[of fs j]
  by (simp add: dict_get_def record_row_def value_key_not_fixed
      value_key_not_fixed[THEN not_sym])

lemma value_cells:
  assumes "length fs \<le> n"
  shows "map (\<lambda>key. case dict_get (record_row py_str (m, p, i, r, fs)) key of
                       Some v \<Rightarrow> v | None \<Rightarrow> PStr '''')
           (map value_key [1 ..< n + 1])
         = fs @ replicate (n - length fs) (PStr '''')"
proof (rule nth_equalityI)
  show "length (map (\<lambda>key. case dict_get (record_row py_str (m, p, i, r, fs)) key of
                       Some v \<Rightarrow> v | None \<Rightarrow> PStr '''')
           (map value_key [1 ..< n + 1]))
        = length (fs @ replicate (n - length fs) (PStr ''''))"
    using assms by (simp del: upt_Suc)
next
  fix j
  assume "j < length (map (\<lambda>key. case dict_get (record_row py_str (m, p, i, r, fs)) key of
                       Some v \<Rightarrow> v | None \<Rightarrow> PStr '''')
           (map value_key [1 ..< n + 1]))"
  then have j: "j < n" by (simp del: upt_Suc)
  then have "[1 ..< n + 1] ! j = j + 1" by (simp del: upt_Suc)
  with j show "map (\<lambda>key. case dict_get (record_row py_str (m, p, i, r, fs)) key of
                       Some v \<Rightarrow> v | None \<Rightarrow> PStr '''')
           (map value_key [1 ..< n + 1]) ! j
        = (fs @ replicate (n - length fs) (PStr '''')) ! j"
    by (simp add: dict_get_record_row_value nth_append del: upt_Suc)
qed

lemma keys_record_row:
  "set (map fst (record_row py_str rec))
     = {''Material'', ''Property'', ''Row_Index'', ''Values''} \<union> value_key ` {1 ..< width rec + 1}"
proof -
  obtain m p i r fs where rec: "rec = (m, p, i, r, fs)" by (cases rec)
  have "set (map fst (keyed fs)) = value_key ` {1 ..< length fs + 1}"
    by (simp only: map_fst_keyed set_map set_upt)
  then show ?thesis
    by (auto simp: rec record_row_def width_def)
qed

lemma set_header:
  "set (header n)
     = {''Material'', ''Property'', ''Row_Index'', ''Values''} \<union> value_key ` {1 ..< n + 1}"
  by (simp add: header_def del: upt_Suc)

lemma dict_to_list_record_row:
  assumes "width rec \<le> n"
  shows "dict_to_list (header n) (record_row py_str rec) = Inr (record_cells py_str n rec)"
proof -
  obtain m p i r fs where rec: "rec = (m, p, i, r, fs)" by (cases rec)
  have "set (map fst (record_row py_str rec)) \<subseteq> set (header n)"
    using assms unfolding keys_record_row set_header by auto
  then have "\<not> list_ex (\<lambda>k. k \<notin> set (header n)) (map fst (record_row py_str rec))"
    by (auto simp: list_ex_iff)
  moreover have "map (\<lambda>key. case dict_get (record_row py_str rec) key of
                       Some v \<Rightarrow> v | None \<Rightarrow> PStr '''') (header n)
      = record_cells py_str n rec"
    using assms value_cells[of fs n py_str m p i r]
    by (simp add: rec header_def record_cells_def dict_get_record_row_fixed width_def
        del: upt_Suc)
  ultimately show ?thesis
    by (simp add: dict_to_list_def)
qed

lemma writerows_record_rows:
  assumes "\<forall>rec\<in>set recs. width rec \<le> n"
  shows "writerows (header n) (map (record_row py_str) recs)
           = Inr (map (record_cells py_str n) recs)"
  using assms by (induction recs) (simp_all add: dict_to_list_record_row)

text \<open>
  C7. When the export has a record, the header is \<open>Material\<close>, \<open>Property\<close>,
  \<open>Row_Index\<close>, \<open>Values\<close>, followed by \<open>Value_1\<close> to \<open>Value_N\<close> for \<open>N\<close> the greatest number
  of positional fields of a record of the whole export. The line of a record is its four
  fixed cells, its positional fields, and empty cells up to \<open>N\<close>; a scalar record has
  no positional field, so all its positional cells are empty. No exception is raised.
  With no record nothing is written.
\<close>

theorem csv_header_and_lines:
  "save_to_csv py_str mats =
     (if records mats = [] then Inr None
      else Inr (Some (header (max_width mats),
                      map (record_cells py_str (max_width mats)) (records mats))))"
proof -
  let ?rows = "map (record_row py_str) (records mats)"
  have n: "max_values ?rows = max_width mats"
    by (simp only: max_values_record_rows max_width_def)
  have "\<forall>rec\<in>set (records mats). width rec \<le> max_width mats"
    by (simp add: max_width_def)
  then have "writerows (header (max_width mats)) ?rows
           = Inr (map (record_cells py_str (max_width mats)) (records mats))"
    by (rule writerows_record_rows)
  moreover have "fieldnames ?rows = header (max_width mats)"
    by (simp only: fieldnames_def header_def n)
  ultimately show ?thesis
    by (simp add: save_to_csv_def flatten_eq Let_def)
qed

theorem csv_header_and_lines_witness:
  "save_to_csv (\<lambda>v. ''...'') two_materials =
     Inr (Some
       ([''Material'', ''Property'', ''Row_Index'', ''Values'', ''Value_1'', ''Value_2'', ''Value_3''],
        [[PStr ''Steel'', PStr ''Elastic'', PInt 0, PStr ''...'',
            PFloat (Finite 210000), PFloat (Finite (3 / 10)), PStr ''''],
         [PStr ''Steel'', PStr ''Elastic_Type'', PInt 0, PStr ''...'', PStr '''', PStr '''', PStr ''''],
         [PStr ''Steel'', PStr ''Plastic'', PInt 0, PStr ''...'',
            PFloat (Finite 250), PFloat (Finite 0), PFloat (Finite 20)],
         [PStr ''Steel'', PStr ''Plastic'', PInt 1, PStr ''...'', PStr ''A'', PStr '''', PStr ''''],
         [PStr ''Rubber'', PStr ''Depvar'', PInt 0, PStr ''...'', PStr '''', PStr '''', PStr '''']]))"
proof -
  have r: "records two_materials \<noteq> []" by code_simp
  have w: "max_width two_materials = 3" by code_simp
  have h: "header 3 = [''Material'', ''Property'', ''Row_Index'', ''Values'',
                        ''Value_1'', ''Value_2'', ''Value_3'']"
    by code_simp
  have c: "map (record_cells (\<lambda>v. ''...'') 3) (records two_materials) =
        [[PStr ''Steel'', PStr ''Elastic'', PInt 0, PStr ''...'',
            PFloat (Finite 210000), PFloat (Finite (3 / 10)), PStr ''''],
         [PStr ''Steel'', PStr ''Elastic_Type'', PInt 0, PStr ''...'', PStr '''', PStr '''', PStr ''''],
         [PStr ''Steel'', PStr ''Plastic'', PInt 0, PStr ''...'',
            PFloat (Finite 250), PFloat (Finite 0), PFloat (Finite 20)],
         [PStr ''Steel'', PStr ''Plastic'', PInt 1, PStr ''...'', PStr ''A'', PStr '''', PStr ''''],
         [PStr ''Rubber'', PStr ''Depvar'', PInt 0, PStr ''...'', PStr '''', PStr '''', PStr '''']]"
    by code_simp
  show ?thesis
    using csv_header_and_lines[of "\<lambda>v. ''...''" two_materials] r
    by (simp only: w h c if_False)
qed

section \<open>The number of records of a material\<close>

lemma length_property_records:
  "length (property_records m pv) = (case pv of (p, PList rows) \<Rightarrow> length rows | (p, v) \<Rightarrow> 1)"
proof -
  obtain p v where pv: "pv = (p, v)" by (cases pv)
  show ?thesis
    unfolding pv by (cases v) (simp_all add: property_records_def)
qed

lemma fst_property_records: "rec \<in> set (property_records m pv) \<Longrightarrow> fst rec = m"
proof -
  assume a: "rec \<in> set (property_records m pv)"
  obtain p v where pv: "pv = (p, v)" by (cases pv)
  from a show ?thesis
    unfolding pv by (cases v) (auto simp: property_records_def)
qed

lemma record_row_material:
  "dict_get (record_row py_str rec) ''Material'' = Some (PStr name) \<longleftrightarrow> fst rec = name"
proof -
  obtain m p i r fs where rec: "rec = (m, p, i, r, fs)" by (cases rec)
  show ?thesis
    by (simp add: rec dict_get_record_row_fixed)
qed

lemma fst_records: "rec \<in> set (records mats) \<Longrightarrow> fst rec \<in> fst ` set mats"
  by (force simp: records_def dest!: fst_property_records)

lemma filter_records_other:
  assumes "name \<notin> fst ` set mats"
  shows "filter (\<lambda>rec. fst rec = name) (records mats) = []"
  using assms fst_records by (fastforce simp: filter_empty_conv)

lemma filter_records_material:
  assumes "distinct (map fst mats)" and "(name, props) \<in> set mats"
  shows "filter (\<lambda>rec. fst rec = name) (records mats) = concat (map (property_records name) props)"
  using assms
proof (induction mats)
  case Nil
  then show ?case by simp
next
  case (Cons mat mats)
  obtain m ps where mat: "mat = (m, ps)" by (cases mat)
  let ?here = "concat (map (property_records m) ps)"
  have split: "records (mat # mats) = ?here @ records mats"
    by (simp add: records_def mat)
  show ?case
  proof (cases "m = name")
    case True
    with Cons.prems mat have "ps = props" and "name \<notin> fst ` set mats"
      by (auto simp: image_iff)
    moreover have "filter (\<lambda>rec. fst rec = name) ?here = ?here"
      using True by (auto simp: filter_id_conv dest: fst_property_records)
    ultimately show ?thesis
      using True by (simp add: split filter_records_other)
  next
    case False
    then have "filter (\<lambda>rec. fst rec = name) ?here = []"
      by (auto simp: filter_empty_conv dest: fst_property_records)
    moreover have "(name, props) \<in> set mats"
      using Cons.prems False mat by auto
    ultimately show ?thesis
      using Cons.IH Cons.prems(1) by (simp add: split)
  qed
qed

text \<open>
  C6. In the rows the export builds, the number of rows of one material is the sum over
  the properties of that material of the number of rows of a list value, and of one for
  a scalar value.
\<close>

theorem flat_record_count:
  assumes "distinct (map fst mats)" and "(name, props) \<in> set mats"
  shows "length (filter (\<lambda>row. dict_get row ''Material'' = Some (PStr name))
                   (flatten py_str mats))
         = sum_list (map (\<lambda>(p, v). case v of PList rows \<Rightarrow> length rows | _ \<Rightarrow> 1) props)"
proof -
  have "filter (\<lambda>row. dict_get row ''Material'' = Some (PStr name)) (flatten py_str mats)
      = map (record_row py_str) (filter (\<lambda>rec. fst rec = name) (records mats))"
    by (simp add: flatten_eq filter_map comp_def record_row_material)
  also have "\<dots> = map (record_row py_str) (concat (map (property_records name) props))"
    using assms by (simp add: filter_records_material)
  finally have "length (filter (\<lambda>row. dict_get row ''Material'' = Some (PStr name))
                   (flatten py_str mats))
      = length (concat (map (property_records name) props))"
    by simp
  also have "\<dots> = sum_list (map (\<lambda>pv. length (property_records name pv)) props)"
    by (simp add: length_concat comp_def)
  also have "\<dots> = sum_list (map (\<lambda>(p, v). case v of PList rows \<Rightarrow> length rows | _ \<Rightarrow> 1) props)"
    by (rule arg_cong[where f = sum_list], rule map_cong)
      (auto simp: length_property_records split: pyval.splits)
  finally show ?thesis .
qed

theorem flat_record_count_witness:
  "length (filter (\<lambda>row. dict_get row ''Material'' = Some (PStr ''Steel''))
             (flatten (\<lambda>v. ''...'') two_materials)) = 4"
proof -
  let ?props = "[(''Elastic'', PList [PList [PFloat (Finite 210000), PFloat (Finite (3 / 10))]]),
        (''Elastic_Type'', PStr ''ISOTROPIC''),
        (''Plastic'', PList [PList [PFloat (Finite 250), PFloat (Finite 0), PFloat (Finite 20)],
                             PList [PStr ''A'']])]"
  have d: "distinct (map fst two_materials)" by (simp add: two_materials_def)
  have m: "(''Steel'', ?props) \<in> set two_materials" by (simp add: two_materials_def)
  have s: "sum_list (map (\<lambda>(p, v). case v of PList rows \<Rightarrow> length rows | _ \<Rightarrow> 1) ?props) = 4"
    by simp
  from flat_record_count[OF d m, of "\<lambda>v. ''...''"] s show ?thesis
    by (simp only:)
qed

section \<open>Property keywords and the rows that follow them\<close>

lemma start_property_ok:
  assumes "dict_get (materials s) cm = Some props"
  shows "start_property s cm p (Inr a) =
     Inr (s\<lparr>materials := dict_set (materials s) cm (props_after p a props),
            current_property := Some p, reading_data := True\<rparr>)"
  using assms
  by (cases a)
    (auto simp: start_property_def set_prop_def dict_get_set dict_set_twice props_after_def)

lemma start_property_raises:
  assumes "dict_get (materials s) cm = Some props"
  shows "start_property s cm p (Inl e) = Inl e"
  using assms by (simp add: start_property_def set_prop_def)

lemma recognised_raises:
  assumes "recognised line = Some (p, r)"
  shows "(\<exists>e. r = Inl e) \<longleftrightarrow>
           p = ''User_Material''
           \<and> (\<exists>g. search_attr ''constants'' isdigit line = Some g \<and> int_max_str_digits < length g)"
    and "r = Inl e \<Longrightarrow> e = ValueError"
proof -
  obtain kw ex where m: "(kw, p, ex) \<in> set property_keywords" and r: "r = ex line"
    using assms by (auto elim!: recognised_keyword)
  from m r show "(\<exists>e. r = Inl e) \<longleftrightarrow>
           p = ''User_Material''
           \<and> (\<exists>g. search_attr ''constants'' isdigit line = Some g \<and> int_max_str_digits < length g)"
    by (auto simp: property_keywords_def constants_attr_def py_int_def
        split: option.splits if_splits)
  from m r show "r = Inl e \<Longrightarrow> e = ValueError"
    by (auto simp: property_keywords_def constants_attr_def py_int_def
        split: option.splits if_splits)
qed

lemma recognised_nonempty: "recognised line = Some (p, r) \<Longrightarrow> p \<noteq> []"
  by (auto elim!: recognised_keyword simp: property_keywords_def)

lemma rows_of_Cons: "rows_of (d # ds) = rows_of [d] @ rows_of ds"
  by (simp add: rows_of_def)

lemma process_line_reading:
  assumes "current_material s = Some cm" and "cm \<noteq> []"
    and "current_property s = Some cp" and "cp \<noteq> []" and "reading_data s"
    and "dict_get (materials s) cm = Some props" and "dict_get props cp = Some (PList rows)"
    and "non_keyword d"
  shows "process_line s d =
     Inr (s\<lparr>materials := dict_set (materials s) cm
                (dict_set props cp (PList (rows @ rows_of [d])))\<rparr>)"
proof -
  have same: "s\<lparr>materials := dict_set (materials s) cm (dict_set props cp (PList rows))\<rparr> = s"
    using assms(6,7) by (simp add: dict_set_same)
  show ?thesis
  proof (cases "clean d")
    case None
    then show ?thesis
      using same by (simp add: process_line_skip rows_of_def)
  next
    case (Some line)
    with assms(8) have n: "\<not> startswith line ''*''"
      by (simp add: non_keyword_def)
    have p: "process_line s d = data_line s cm cp line"
      using assms(1-5) by (simp add: process_line_non_keyword[OF Some n] truthy_def)
    show ?thesis
    proof (cases "values_of line = []")
      case True
      then show ?thesis
        using p same Some by (simp add: data_line_def rows_of_def)
    next
      case False
      then show ?thesis
        using p Some data_line_append[OF assms(6,7) False] by (simp add: rows_of_def)
    qed
  qed
qed

lemma run_reading:
  assumes "current_material s = Some cm" and "cm \<noteq> []"
    and "current_property s = Some cp" and "cp \<noteq> []" and "reading_data s"
    and "dict_get (materials s) cm = Some props" and "dict_get props cp = Some (PList rows)"
    and "\<forall>d\<in>set ds. non_keyword d"
  shows "run s ds =
     Inr (s\<lparr>materials := dict_set (materials s) cm
                (dict_set props cp (PList (rows @ rows_of ds)))\<rparr>)"
  using assms
proof (induction ds arbitrary: s props rows)
  case Nil
  then show ?case
    by (simp add: rows_of_def dict_set_same)
next
  case (Cons d ds)
  let ?props = "dict_set props cp (PList (rows @ rows_of [d]))"
  let ?s = "s\<lparr>materials := dict_set (materials s) cm ?props\<rparr>"
  have step: "process_line s d = Inr ?s"
    using Cons.prems by (intro process_line_reading) auto
  have "run ?s ds =
     Inr (?s\<lparr>materials := dict_set (materials ?s) cm
                 (dict_set ?props cp (PList ((rows @ rows_of [d]) @ rows_of ds)))\<rparr>)"
    using Cons.prems by (intro Cons.IH) (auto simp: dict_get_set)
  then show ?case
    using step by (simp add: dict_set_twice rows_of_Cons[of d ds])
qed

section \<open>The reachable states\<close>

lemma wf_init: "wf init"
  by (simp add: wf_def init_def)

lemma wf_classify:
  assumes "wf s"
  obtains
    (skip) "clean raw = None"
  | (named) line name where "clean raw = Some line" "startswith (upper line) ''*MATERIAL''"
      "search_attr ''name'' token_char line = Some name"
  | (unnamed) line where "clean raw = Some line" "startswith (upper line) ''*MATERIAL''"
      "search_attr ''name'' token_char line = None"
  | (idle) line where "clean raw = Some line" "\<not> startswith (upper line) ''*MATERIAL''"
      "current_material s = None" "\<not> reading_data s"
  | (property) line cm props p r where "clean raw = Some line"
      "current_material s = Some cm" "cm \<noteq> []" "dict_get (materials s) cm = Some props"
      "recognised line = Some (p, r)"
  | (other) line cm props where "clean raw = Some line"
      "\<not> startswith (upper line) ''*MATERIAL''" "startswith line ''*''"
      "current_material s = Some cm" "cm \<noteq> []" "dict_get (materials s) cm = Some props"
      "recognised line = None"
  | (closed) line where "clean raw = Some line" "\<not> startswith line ''*''" "\<not> reading_data s"
  | (data) line cm cp props rows where "clean raw = Some line" "\<not> startswith line ''*''"
      "current_material s = Some cm" "cm \<noteq> []" "current_property s = Some cp" "cp \<noteq> []"
      "reading_data s" "dict_get (materials s) cm = Some props"
      "dict_get props cp = Some (PList rows)"
proof (cases "clean raw")
  case None
  then show ?thesis by (rule skip)
next
  case (Some line)
  show ?thesis
  proof (cases "startswith (upper line) ''*MATERIAL''")
    case True
    with Some named unnamed show ?thesis
      by (cases "search_attr ''name'' token_char line") auto
  next
    case nm: False
    show ?thesis
    proof (cases "current_material s")
      case None
      with assms have "\<not> reading_data s" by (simp add: wf_def)
      with Some nm None show ?thesis by (rule idle)
    next
      case cm: (Some cm)
      with assms obtain props where ne: "cm \<noteq> []"
        and props: "dict_get (materials s) cm = Some props"
        by (auto simp: wf_def split: option.splits)
      show ?thesis
      proof (cases "startswith line ''*''")
        case True
        show ?thesis
        proof (cases "recognised line")
          case None
          with Some nm True cm ne props show ?thesis by (intro other)
        next
          case (Some pa)
          then obtain p r where "recognised line = Some (p, r)" by (cases pa) auto
          with \<open>clean raw = Some line\<close> cm ne props show ?thesis by (intro property)
        qed
      next
        case ns: False
        show ?thesis
        proof (cases "reading_data s")
          case False
          with Some ns show ?thesis by (intro closed)
        next
          case True
          with assms cm props obtain cp rows where "current_property s = Some cp" "cp \<noteq> []"
            "dict_get props cp = Some (PList rows)"
            by (auto simp: wf_def split: option.splits pyval.splits)
          with Some ns cm ne True props show ?thesis by (intro data)
        qed
      qed
    qed
  qed
qed

lemma process_line_named:
  assumes "clean raw = Some line" "startswith (upper line) ''*MATERIAL''"
    and "search_attr ''name'' token_char line = Some name"
  shows "process_line s raw =
     Inr (s\<lparr>materials := dict_set (materials s) name [], current_material := Some name,
            current_property := None, reading_data := False\<rparr>)"
  using assms by (simp add: process_line_material)

lemma process_line_unnamed:
  assumes "clean raw = Some line" "startswith (upper line) ''*MATERIAL''"
    and "search_attr ''name'' token_char line = None"
  shows "process_line s raw = Inr s"
  using assms by (simp add: process_line_material)

lemma process_line_no_material:
  assumes "clean raw = Some line" "\<not> startswith (upper line) ''*MATERIAL''"
    and "current_material s = None"
  shows "process_line s raw = Inr s"
  using assms by (simp add: process_line_def truthy_def)

lemma process_line_property:
  assumes "clean raw = Some line" and "recognised line = Some (p, r)"
    and "current_material s = Some cm" and "cm \<noteq> []"
    and "dict_get (materials s) cm = Some props"
  shows "process_line s raw =
     (case r of
        Inl e \<Rightarrow> Inl e
      | Inr a \<Rightarrow>
          Inr (s\<lparr>materials := dict_set (materials s) cm (props_after p a props),
                 current_property := Some p, reading_data := True\<rparr>))"
proof -
  have "process_line s raw = keyword_line s cm line"
    using assms(1-4) recognised_not_material recognised_star
    by (intro process_line_keyword) auto
  also have "\<dots> = start_property s cm p r"
    using assms(2) by (simp add: keyword_line_cases)
  finally show ?thesis
    using start_property_ok[OF assms(5)] start_property_raises[OF assms(5)]
    by (cases r) simp_all
qed

lemma process_line_other:
  assumes "clean raw = Some line" and "\<not> startswith (upper line) ''*MATERIAL''"
    and "startswith line ''*''" and "recognised line = None"
    and "current_material s = Some cm" and "cm \<noteq> []"
    and "dict_get (materials s) cm = Some props"
  shows "process_line s raw =
     (if startswith (upper line) ''*DEPVAR'' then
        (case search_digits line of
           None \<Rightarrow> Inr (s\<lparr>reading_data := False\<rparr>)
         | Some g \<Rightarrow>
             if int_max_str_digits < length g then Inl ValueError
             else Inr (s\<lparr>materials := dict_set (materials s) cm
                                (dict_set props ''Depvar'' (PInt (int_of_digits g))),
                         reading_data := False\<rparr>))
      else if list_ex (startswith (upper line)) non_material_keywords then
        Inr (s\<lparr>current_material := None, current_property := None, reading_data := False\<rparr>)
      else Inr (s\<lparr>reading_data := False\<rparr>))"
proof -
  have "process_line s raw = keyword_line s cm line"
    using assms(1-3,5,6) by (intro process_line_keyword) auto
  also have "\<dots> = other_keyword s cm line"
    using assms(4) by (simp add: keyword_line_cases)
  finally show ?thesis
    using assms(7)
    by (simp add: other_keyword_def set_prop_def py_int_def split: option.splits)
qed

lemma non_keywordI: "clean raw = Some line \<Longrightarrow> \<not> startswith line ''*'' \<Longrightarrow> non_keyword raw"
  by (simp add: non_keyword_def)

lemma match_attr_at_nonempty: "match_attr_at key cls s = Some g \<Longrightarrow> g \<noteq> []"
  by (auto simp: match_attr_at_def Let_def split: if_splits list.splits)

lemma search_attr_nonempty: "search_attr key cls s = Some g \<Longrightarrow> g \<noteq> []"
  by (induction s) (auto split: option.splits dest: match_attr_at_nonempty)

text \<open>
  Every line takes a reachable state to a reachable state or raises \<open>ValueError\<close>, and
  it raises only when it is a keyword line whose digits \<open>int\<close> refuses.
\<close>

lemma wf_step:
  assumes "wf s"
  shows "case process_line s raw of
           Inl e \<Rightarrow> e = ValueError \<and> raising raw
         | Inr s' \<Rightarrow> wf s'"
  using assms
proof (cases rule: wf_classify[where raw = raw])
  case skip
  then show ?thesis using assms by (simp add: process_line_skip)
next
  case (named line name)
  have "name \<noteq> []"
    using named(3) by (rule search_attr_nonempty)
  then show ?thesis
    by (simp add: process_line_named[OF named] wf_def dict_get_set)
next
  case (unnamed line)
  then show ?thesis using assms by (simp add: process_line_unnamed)
next
  case (idle line)
  then show ?thesis using assms by (simp add: process_line_no_material)
next
  case (property line cm props p r)
  show ?thesis
  proof (cases r)
    case (Inl e)
    with property(1,5) recognised_raises(2)[OF property(5)] show ?thesis
      by (simp add: process_line_property[OF property(1,5,2,3,4)] raising_def)
  next
    case (Inr a)
    have "p \<noteq> []"
      using property(5) by (rule recognised_nonempty)
    moreover have "dict_get (props_after p a props) p = Some (PList [])"
      using recognised_attr_key[of line p] property(5) Inr
      by (cases a) (auto simp: props_after_def dict_get_set)
    ultimately show ?thesis
      using property(2,3) Inr
      by (simp add: process_line_property[OF property(1,5,2,3,4)] wf_def dict_get_set)
  qed
next
  case (other line cm props)
  show ?thesis
    unfolding process_line_other[OF other(1,2,3,7,4,5,6)]
    using assms other(1,4,5,6,7)
    by (auto simp: wf_def dict_get_set raising_def split: option.splits)
next
  case (closed line)
  then show ?thesis
    using assms by (simp add: process_line_closed non_keywordI)
next
  case (data line cm cp props rows)
  have "non_keyword raw" using data(1,2) by (rule non_keywordI)
  from process_line_reading[OF data(3-9) this] data(3-7) show ?thesis
    by (simp add: wf_def dict_get_set)
qed

lemma wf_step_Inr: "wf s \<Longrightarrow> process_line s raw = Inr s' \<Longrightarrow> wf s'"
  using wf_step[of s raw] by simp

lemma wf_step_Inl: "wf s \<Longrightarrow> process_line s raw = Inl e \<Longrightarrow> e = ValueError \<and> raising raw"
  using wf_step[of s raw] by simp

lemma wf_step_ok: "wf s \<Longrightarrow> \<not> raising raw \<Longrightarrow> \<exists>s'. process_line s raw = Inr s' \<and> wf s'"
  using wf_step[of s raw] by (cases "process_line s raw") auto

lemma wf_run: "wf s \<Longrightarrow> run s ls = Inr s' \<Longrightarrow> wf s'"
proof (induction ls arbitrary: s)
  case Nil
  then show ?case by simp
next
  case (Cons l ls)
  then show ?case
    by (cases "process_line s l") (auto dest: wf_step_Inr)
qed

lemma wf_run_Inl: "wf s \<Longrightarrow> run s ls = Inl e \<Longrightarrow> e = ValueError \<and> (\<exists>l\<in>set ls. raising l)"
proof (induction ls arbitrary: s)
  case Nil
  then show ?case by simp
next
  case (Cons l ls)
  then show ?case
    by (cases "process_line s l") (auto dest: wf_step_Inr wf_step_Inl)
qed

lemma wf_run_ok:
  assumes "wf s" and "\<forall>l\<in>set ls. \<not> raising l"
  shows "\<exists>s'. run s ls = Inr s' \<and> wf s'"
proof (cases "run s ls")
  case (Inl e)
  with wf_run_Inl[OF assms(1) Inl] assms(2) show ?thesis by blast
next
  case (Inr s')
  with wf_run[OF assms(1) Inr] show ?thesis by simp
qed

text \<open>The only exception the extractor raises is the \<open>ValueError\<close> of \<open>int\<close>, and it
  raises none when no line carries digits that \<open>int\<close> refuses.\<close>

lemma extract_material_properties_raises:
  "extract_material_properties lines = Inl e \<Longrightarrow> e = ValueError \<and> (\<exists>l\<in>set lines. raising l)"
  using wf_run_Inl[OF wf_init, of lines e]
  by (auto simp: extract_material_properties_def split: sum.splits)

lemma extract_material_properties_returns:
  "\<forall>l\<in>set lines. \<not> raising l \<Longrightarrow> \<exists>ms. extract_material_properties lines = Inr ms"
  using wf_run_ok[OF wf_init, of lines]
  by (auto simp: extract_material_properties_def)

lemma wf_extract:
  assumes "extract_material_properties lines = Inr ms"
  obtains s where "run init lines = Inr s" "wf s" "materials s = ms"
  using assms wf_run[OF wf_init, of lines]
  by (auto simp: extract_material_properties_def split: sum.splits)

section \<open>Lines that end in a long run of digits\<close>

lemma digit_not_space: "isdigit c \<Longrightarrow> \<not> isspace c"
  by (auto simp: isdigit_def isspace_def)

lemma digit_not_star: "isdigit c \<Longrightarrow> c \<noteq> CHR ''*''"
  by (auto simp: isdigit_def)

lemma takeWhile_digits: "\<forall>c\<in>set ds. isdigit c \<Longrightarrow> takeWhile isdigit ds = ds"
  by (simp add: takeWhile_eq_all_conv)


lemma contains_digits: "\<forall>c\<in>set ds. isdigit c \<Longrightarrow> \<not> contains ds ''**''"
  by (induction ds) (auto dest: digit_not_star)

lemma strip_digits_tail:
  assumes "t \<noteq> []" and "\<not> isspace (hd t)" and "ds \<noteq> []" and "\<forall>c\<in>set ds. isdigit c"
  shows "strip (t @ ds) = t @ ds"
proof -
  have "dropWhile isspace (t @ ds) = t @ ds"
    using assms(1,2) by (simp add: dropWhile_eq_self_iff)
  moreover have "\<not> isspace (hd (rev (t @ ds)))"
    using assms(3,4) by (simp add: hd_rev digit_not_space)
  then have "dropWhile isspace (rev (t @ ds)) = rev (t @ ds)"
    by (simp add: dropWhile_eq_self_iff)
  ultimately show ?thesis
    by (simp add: strip_def)
qed

lemma long_digits_facts:
  "replicate 4301 CHR ''1'' \<noteq> []"
  "\<forall>c\<in>set (replicate 4301 CHR ''1''). isdigit c"
  "int_max_str_digits < length (replicate 4301 CHR ''1'')"
  by (simp_all add: isdigit_def int_max_str_digits_def)

lemma startswith_appendI: "startswith a p \<Longrightarrow> startswith (a @ b) p"
  by (induction a p rule: startswith.induct) auto




lemma clean_depvar_digits:
  assumes "ds \<noteq> []" and "\<forall>c\<in>set ds. isdigit c"
  shows "clean (''*DEPVAR, '' @ ds) = Some (''*DEPVAR, '' @ ds)"
proof -
  have "strip (''*DEPVAR, '' @ ds) = ''*DEPVAR, '' @ ds"
    using assms by (intro strip_digits_tail) (simp_all add: isspace_def)
  moreover have "\<not> contains (''*DEPVAR, '' @ ds) ''**''"
    using contains_digits[OF assms(2)] by simp
  ultimately show ?thesis
    by (simp add: clean_def)
qed

lemma search_digits_depvar:
  assumes "ds \<noteq> []" and "\<forall>c\<in>set ds. isdigit c"
  shows "search_digits (''*DEPVAR, '' @ ds) = Some ds"
proof -
  have "dropWhile (\<lambda>c. \<not> isdigit c) ds = ds"
    using assms by (cases ds) auto
  then show ?thesis
    using assms(1) by (simp add: search_digits_def isdigit_def[of "CHR ''*''"]
        isdigit_def[of "CHR ''D''"] isdigit_def[of "CHR ''E''"] isdigit_def[of "CHR ''P''"]
        isdigit_def[of "CHR ''V''"] isdigit_def[of "CHR ''A''"] isdigit_def[of "CHR ''R''"]
        isdigit_def[of "CHR '',''"] isdigit_def[of "CHR '' ''"] takeWhile_digits[OF assms(2)])
qed

lemma upper_depvar_digits: "startswith (upper (''*DEPVAR, '' @ ds)) ''*DEPVAR''"
proof -
  have "startswith (upper ''*DEPVAR, '') ''*DEPVAR''" by code_simp
  then show ?thesis
    by (simp only: upper_def map_append startswith_appendI)
qed




text \<open>
  C1, as the extractor has it. The number of \<open>Depvar\<close> is taken from the keyword line
  itself: when the \<open>*DEPVAR\<close> line of a material holds a run of digits, the material maps
  \<open>Depvar\<close> to the integer of the first run (\<open>int\<close> raises \<open>ValueError\<close>, and the
  extractor returns nothing, when that run has more than 4300 digits), and when it holds
  none the material is left as it is. Otherwise data reading is switched off, so the
  non-keyword lines that follow append no row and set no key.
\<close>

theorem depvar_from_keyword_line:
  assumes "clean raw = Some line" and "startswith (upper line) ''*DEPVAR''"
    and "current_material s = Some cm" and "cm \<noteq> []"
    and "dict_get (materials s) cm = Some props"
    and "\<forall>d\<in>set ds. non_keyword d"
  shows "run s (raw # ds) =
     (case search_digits line of
        None \<Rightarrow> Inr (s\<lparr>reading_data := False\<rparr>)
      | Some g \<Rightarrow>
          if 4300 < length g then Inl ValueError
          else Inr (s\<lparr>materials := dict_set (materials s) cm
                             (dict_set props ''Depvar'' (PInt (int_of_digits g))),
                      reading_data := False\<rparr>))"
proof -
  have "\<not> startswith (upper line) ''*MATERIAL''"
    using assms(2) by (rule startswith_other) simp_all
  moreover have "startswith line ''*''"
    using assms(2) by (rule startswith_upper_star)
  ultimately have step: "process_line s raw =
     (case search_digits line of
        None \<Rightarrow> Inr (s\<lparr>reading_data := False\<rparr>)
      | Some g \<Rightarrow>
          if 4300 < length g then Inl ValueError
          else Inr (s\<lparr>materials := dict_set (materials s) cm
                             (dict_set props ''Depvar'' (PInt (int_of_digits g))),
                      reading_data := False\<rparr>))"
    using assms(1-5) depvar_not_recognised[OF assms(2)]
    by (simp add: process_line_other int_max_str_digits_def split: option.splits)
  show ?thesis
  proof (cases "search_digits line")
    case None
    with step have "process_line s raw = Inr (s\<lparr>reading_data := False\<rparr>)" by simp
    moreover have "run (s\<lparr>reading_data := False\<rparr>) ds = Inr (s\<lparr>reading_data := False\<rparr>)"
      using assms(6) by (intro run_closed) auto
    ultimately show ?thesis using None by simp
  next
    case (Some g)
    show ?thesis
    proof (cases "4300 < length g")
      case True
      with step Some show ?thesis by simp
    next
      case False
      let ?s1 = "s\<lparr>materials := dict_set (materials s) cm
                             (dict_set props ''Depvar'' (PInt (int_of_digits g))),
                      reading_data := False\<rparr>"
      from step Some False have "process_line s raw = Inr ?s1" by simp
      moreover have "run ?s1 ds = Inr ?s1"
        using assms(6) by (intro run_closed) auto
      ultimately show ?thesis using Some False by simp
    qed
  qed
qed

theorem depvar_from_keyword_line_witness:
  "run in_material_M [''*DEPVAR, 15'', ''15'', ''3.0''] =
     Inr (in_material_M\<lparr>materials := [(''M'', [(''Depvar'', PInt 15)])]\<rparr>)"
proof -
  have c: "clean ''*DEPVAR, 15'' = Some ''*DEPVAR, 15''" by code_simp
  have u: "startswith (upper ''*DEPVAR, 15'') ''*DEPVAR''" by code_simp
  have m: "current_material in_material_M = Some ''M''"
    and g: "dict_get (materials in_material_M) ''M'' = Some []"
    by (simp_all add: in_material_M_def dict_get_def)
  have d: "\<forall>d\<in>set [''15'', ''3.0'']. non_keyword d" by code_simp
  have n: "search_digits ''*DEPVAR, 15'' = Some ''15''" by code_simp
  have i: "int_of_digits ''15'' = 15" by code_simp
  from depvar_from_keyword_line[OF c u m _ g d] n i show ?thesis
    by (simp add: in_material_M_def)
qed

theorem depvar_next_line_counterexample:
  "extract_material_properties [''*MATERIAL, name=M'', ''*DEPVAR'', ''15''] = Inr [(''M'', [])]"
  by code_simp

section \<open>Stale properties\<close>

lemma stale_step:
  assumes "wf s" and "\<not> (current_material s = Some m \<and> activates p raw)"
    and "stale m p s \<or> (keyword raw \<and> \<not> unnamed_material raw)"
    and "process_line s raw = Inr s'"
  shows "stale m p s'"
  using assms(1)
proof (cases rule: wf_classify[where raw = raw])
  case skip
  with assms(3,4) show ?thesis
    by (simp add: process_line_skip keyword_def)
next
  case (named line name)
  from assms(4) show ?thesis
    by (auto simp: process_line_named[OF named] stale_def)
next
  case (unnamed line)
  with assms(3,4) show ?thesis
    by (auto simp: process_line_unnamed[OF unnamed] unnamed_material_def)
next
  case (idle line)
  with assms(4) show ?thesis
    by (auto simp: process_line_no_material stale_def)
next
  case (property line cm props p' r)
  from property(1,5) have "activates p raw \<longleftrightarrow> p' = p"
    by (simp add: activates_def)
  with assms(2) property(2) have "cm \<noteq> m \<or> p' \<noteq> p" by auto
  with assms(4) show ?thesis
    by (cases r) (auto simp: process_line_property[OF property(1,5,2,3,4)] stale_def property(2))
next
  case (other line cm props)
  from assms(4) show ?thesis
    by (auto simp: process_line_other[OF other(1,2,3,7,4,5,6)] stale_def
        split: if_splits option.splits)
next
  case (closed line)
  with assms(4) show ?thesis
    by (auto simp: process_line_closed non_keywordI stale_def)
next
  case (data line cm cp props rows)
  have nk: "non_keyword raw" using data(1,2) by (rule non_keywordI)
  from data(1,2) have "\<not> keyword raw" by (simp add: keyword_def)
  with assms(3) have "stale m p s" by simp
  with assms(4) show ?thesis
    by (auto simp: process_line_reading[OF data(3-9) nk] stale_def)
qed

lemma stale_run:
  assumes "wf s" and "stale m p s" and "never_opens m p s ls" and "run s ls = Inr s'"
  shows "stale m p s'"
  using assms
proof (induction ls arbitrary: s)
  case Nil
  then show ?case by simp
next
  case (Cons l ls)
  from Cons.prems(4) obtain s1 where s1: "process_line s l = Inr s1" "run s1 ls = Inr s'"
    by (cases "process_line s l") auto
  have "wf s1" using Cons.prems(1) s1(1) by (rule wf_step_Inr)
  moreover have "stale m p s1"
    using Cons.prems(1-3) s1(1) by (intro stale_step[of s m p l s1]) auto
  moreover have "never_opens m p s1 ls"
    using Cons.prems(3) s1(1) by simp
  ultimately show ?case
    using s1(2) by (rule Cons.IH)
qed

lemma non_keyword_cases:
  assumes "wf s" and "non_keyword d"
  obtains (unchanged) "process_line s d = Inr s"
  | (appended) cm cp props rows where "current_material s = Some cm"
      "current_property s = Some cp" "reading_data s"
      "dict_get (materials s) cm = Some props" "dict_get props cp = Some (PList rows)"
      "process_line s d =
         Inr (s\<lparr>materials := dict_set (materials s) cm
                    (dict_set props cp (PList (rows @ rows_of [d])))\<rparr>)"
  using assms(1)
proof (cases rule: wf_classify[where raw = d])
  case skip
  then show ?thesis by (intro unchanged) (simp add: process_line_skip)
next
  case (named line name)
  with assms(2) show ?thesis
    by (auto simp: non_keyword_def dest: startswith_upper_star)
next
  case (unnamed line)
  with assms(2) show ?thesis
    by (auto simp: non_keyword_def dest: startswith_upper_star)
next
  case (idle line)
  then show ?thesis by (intro unchanged) (simp add: process_line_no_material)
next
  case (property line cm props p r)
  with assms(2) show ?thesis
    by (auto simp: non_keyword_def dest: recognised_star)
next
  case (other line cm props)
  with assms(2) show ?thesis
    by (simp add: non_keyword_def)
next
  case (closed line)
  with assms(2) show ?thesis by (intro unchanged) (simp add: process_line_closed)
next
  case (data line cm cp props rows)
  from process_line_reading[OF data(3-9) assms(2)] data show ?thesis
    by (intro appended)
qed

lemma stale_data:
  assumes "wf s" and "stale m p s" and "non_keyword d"
  shows "\<exists>s'. process_line s d = Inr s'
           \<and> prop_of (materials s') m p = prop_of (materials s) m p"
  using assms(1,3)
proof (cases rule: non_keyword_cases)
  case unchanged
  then show ?thesis by simp
next
  case (appended cm cp props rows)
  with assms(2) have "cm \<noteq> m \<or> cp \<noteq> p" by (auto simp: stale_def)
  with appended show ?thesis
    by (auto simp: prop_of_def dict_get_set)
qed

text \<open>
  C2, as the extractor has it. Take an input that the extractor reads without raising,
  a keyword line \<open>k\<close> of it other than a \<open>*MATERIAL\<close> line without a name, and a property
  \<open>p\<close> of a material \<open>m\<close>. As long as no keyword line that opens \<open>p\<close> has been read
  while \<open>m\<close> was the current material, from \<open>k\<close> on, a data line appends nothing to
  \<open>p\<close> of \<open>m\<close>: its value is the same before and after the data line. (A \<open>*MATERIAL\<close>
  line on which no name is found changes nothing, so the rows after it still go to the
  property that was active before it.)
\<close>

theorem stale_property_gets_no_rows:
  assumes "run init pre = Inr s0"
    and "keyword k" and "\<not> unnamed_material k"
    and "never_opens m p s0 (k # ls)"
    and "run s0 (k # ls) = Inr s"
    and "non_keyword d"
  shows "extract_material_properties (pre @ k # ls) = Inr (materials s)
         \<and> (\<exists>ms. extract_material_properties (pre @ k # ls @ [d]) = Inr ms
                \<and> prop_of ms m p = prop_of (materials s) m p)"
proof -
  have wf0: "wf s0" using wf_init assms(1) by (rule wf_run)
  from assms(5) obtain s1 where s1: "process_line s0 k = Inr s1" "run s1 ls = Inr s"
    by (cases "process_line s0 k") auto
  have wf1: "wf s1" using wf0 s1(1) by (rule wf_step_Inr)
  have "stale m p s1"
    using wf0 assms(2-4) s1(1) by (intro stale_step[of s0 m p k s1]) auto
  moreover have "never_opens m p s1 ls"
    using assms(4) s1(1) by simp
  ultimately have st: "stale m p s"
    using wf1 s1(2) by (intro stale_run[of s1 m p ls s]) auto
  have wf2: "wf s" using wf1 s1(2) by (rule wf_run)
  from stale_data[OF wf2 st assms(6), of]
  obtain s3 where s3: "process_line s d = Inr s3"
    "prop_of (materials s3) m p = prop_of (materials s) m p"
    by blast
  have "run init (pre @ k # ls) = Inr s"
    using assms(1,5) by (simp add: run_append)
  moreover have "run init (pre @ k # ls @ [d]) = Inr s3"
    using assms(1) s1 s3(1) by (simp add: run_append)
  ultimately show ?thesis
    using s3(2) by (simp add: extract_material_properties_def)
qed

theorem stale_property_gets_no_rows_witness:
  "\<exists>ms. extract_material_properties
            ([''*MATERIAL, name=A'', ''*ELASTIC'', ''1.0'']
               @ ''*MATERIAL, name=B'' # [''*ELASTIC''] @ [''2.0'']) = Inr ms
     \<and> prop_of ms ''A'' ''Elastic'' = Some (PList [PList [PFloat (Finite 1)]])"
proof -
  let ?a = "[(''Elastic'', PList [PList [PFloat (Finite 1)]])]"
  let ?before = "\<lparr>materials = [(''A'', ?a)], current_material = Some ''A'',
              current_property = Some ''Elastic'', reading_data = True\<rparr>"
  let ?s = "\<lparr>materials = [(''A'', ?a), (''B'', [(''Elastic'', PList [])])],
             current_material = Some ''B'', current_property = Some ''Elastic'',
             reading_data = True\<rparr>"
  have pre: "run init [''*MATERIAL, name=A'', ''*ELASTIC'', ''1.0''] = Inr ?before" by code_simp
  have k: "keyword ''*MATERIAL, name=B''" by code_simp
  have u: "\<not> unnamed_material ''*MATERIAL, name=B''" by code_simp
  have n: "never_opens ''A'' ''Elastic'' ?before (''*MATERIAL, name=B'' # [''*ELASTIC''])"
    by code_simp
  have r: "run ?before (''*MATERIAL, name=B'' # [''*ELASTIC'']) = Inr ?s" by code_simp
  have d: "non_keyword ''2.0''" by code_simp
  have "prop_of (materials ?s) ''A'' ''Elastic'' = Some (PList [PList [PFloat (Finite 1)]])"
    by (simp add: prop_of_def dict_get_def)
  with stale_property_gets_no_rows[OF pre k u n r d] show ?thesis
    by auto
qed

theorem unnamed_material_counterexample:
  "extract_material_properties
     [''*MATERIAL, name=Steel'', ''*ELASTIC'', ''1.0'', ''*MATERIAL'', ''2.0'']
   = Inr [(''Steel'', [(''Elastic'', PList [PList [PFloat (Finite 1)], PList [PFloat (Finite 2)]])])]"
  by code_simp

section \<open>A material declared again\<close>

lemma agree_step:
  assumes "wf s" and "wf t" and "agree x s t"
  shows "rel_sum (=) (agree x) (process_line s raw) (process_line t raw)"
  using assms(1)
proof (cases rule: wf_classify[where raw = raw])
  case skip
  with assms(3) show ?thesis by (simp add: process_line_skip)
next
  case (named line name)
  from assms(3) show ?thesis
    by (auto simp: process_line_named[OF named] agree_def dict_get_set)
next
  case (unnamed line)
  with assms(3) show ?thesis by (simp add: process_line_unnamed[OF unnamed])
next
  case (idle line)
  moreover from idle assms(3) have "current_material t = None" by (simp add: agree_def)
  ultimately show ?thesis
    using assms(3) by (simp add: process_line_no_material)
next
  case (property line cm props p r)
  with assms(3) have t: "current_material t = Some cm" "dict_get (materials t) cm = Some props"
    by (auto simp: agree_def)
  from assms(3) property(2) t show ?thesis
    by (cases r)
      (auto simp: process_line_property[OF property(1,5,2,3,4)]
        process_line_property[OF property(1,5) t(1) property(3) t(2)] agree_def dict_get_set)
next
  case (other line cm props)
  with assms(3) have t: "current_material t = Some cm" "dict_get (materials t) cm = Some props"
    by (auto simp: agree_def)
  from assms(3) other(4) t show ?thesis
    by (auto simp: process_line_other[OF other(1,2,3,7,4,5,6)]
        process_line_other[OF other(1,2,3,7) t(1) other(5) t(2)] agree_def dict_get_set
        split: option.splits)
next
  case (closed line)
  moreover from closed assms(3) have "\<not> reading_data t" by (simp add: agree_def)
  ultimately show ?thesis
    using assms(3) by (simp add: process_line_closed non_keywordI)
next
  case (data line cm cp props rows)
  have nk: "non_keyword raw" using data(1,2) by (rule non_keywordI)
  from data assms(3) have t: "current_material t = Some cm" "current_property t = Some cp"
    "reading_data t" "dict_get (materials t) cm = Some props"
    by (auto simp: agree_def)
  from assms(3) data(3) t show ?thesis
    by (auto simp: process_line_reading[OF data(3-9) nk]
        process_line_reading[OF t(1) data(4) t(2) data(6) t(3,4) data(9) nk]
        agree_def dict_get_set)
qed

lemma agree_run:
  assumes "wf s" and "wf t" and "agree x s t"
  shows "rel_sum (=) (agree x) (run s ls) (run t ls)"
  using assms
proof (induction ls arbitrary: s t)
  case Nil
  then show ?case by simp
next
  case (Cons l ls)
  note step = agree_step[OF Cons.prems, of l]
  show ?case
  proof (cases "process_line s l")
    case (Inl e)
    with step have "process_line t l = Inl e"
      by (cases "process_line t l") simp_all
    with Inl show ?thesis by simp
  next
    case (Inr s1)
    with step obtain t1 where t1: "process_line t l = Inr t1" "agree x s1 t1"
      by (cases "process_line t l") simp_all
    have "wf s1" "wf t1"
      using Cons.prems(1,2) Inr t1(1) by (auto dest: wf_step_Inr)
    with t1 Inr show ?thesis
      using Cons.IH[of s1 t1] by simp
  qed
qed

lemma run_section:
  assumes "current_material s = Some cm" and "cm \<noteq> []"
    and "dict_get (materials s) cm = Some props" and "section_ok sec"
  shows "\<exists>s'. run s (fst sec # snd sec) = Inr s' \<and> current_material s' = Some cm
           \<and> dict_get (materials s') cm = Some (section_props props sec)"
proof -
  obtain kw ds where sec: "sec = (kw, ds)" by (cases sec)
  from assms(4) sec obtain line p a where
    line: "clean kw = Some line" "recognised line = Some (p, Inr a)"
    and ds: "\<forall>d\<in>set ds. non_keyword d"
    by (auto simp: section_ok_def list_all_iff split: option.splits sum.splits)
  let ?props = "props_after p a props"
  let ?s1 = "s\<lparr>materials := dict_set (materials s) cm ?props,
                current_property := Some p, reading_data := True\<rparr>"
  have s1: "process_line s kw = Inr ?s1"
    using process_line_property[OF line assms(1-3)] by simp
  have p: "p \<noteq> []" using line(2) by (rule recognised_nonempty)
  have g: "dict_get ?props p = Some (PList [])"
  proof (cases a)
    case None
    then show ?thesis by (simp add: props_after_def dict_get_set)
  next
    case (Some kv)
    then obtain k v where "a = Some (k, v)" by (cases kv) simp
    moreover with line(2) have "k \<noteq> p" by (intro recognised_attr_key) simp
    ultimately show ?thesis by (simp add: props_after_def dict_get_set)
  qed
  have "run ?s1 ds =
     Inr (?s1\<lparr>materials := dict_set (materials ?s1) cm
                (dict_set ?props p (PList ([] @ rows_of ds)))\<rparr>)"
    using assms(1,2) p g ds by (intro run_reading) (simp_all add: dict_get_set)
  with s1 sec line assms(1) show ?thesis
    by (simp add: section_props_def dict_get_set)
qed

lemma run_block:
  assumes "current_material s = Some cm" and "cm \<noteq> []"
    and "dict_get (materials s) cm = Some props" and "list_all section_ok secs"
  shows "\<exists>s'. run s (block_lines secs) = Inr s' \<and> current_material s' = Some cm
           \<and> dict_get (materials s') cm = Some (foldl section_props props secs)"
  using assms
proof (induction secs arbitrary: s props)
  case Nil
  then show ?case by (simp add: block_lines_def)
next
  case (Cons sec secs)
  from Cons.prems(4) have ok: "section_ok sec" "list_all section_ok secs" by simp_all
  from run_section[OF Cons.prems(1-3) ok(1)] obtain s1 where
    s1: "run s (fst sec # snd sec) = Inr s1" "current_material s1 = Some cm"
      "dict_get (materials s1) cm = Some (section_props props sec)"
    by blast
  from Cons.IH[OF s1(2) Cons.prems(2) s1(3) ok(2)] obtain s2 where
    s2: "run s1 (block_lines secs) = Inr s2" "current_material s2 = Some cm"
      "dict_get (materials s2) cm = Some (foldl section_props (section_props props sec) secs)"
    by blast
  have "block_lines (sec # secs) = (fst sec # snd sec) @ block_lines secs"
    by (cases sec) (simp add: block_lines_def)
  with s1(1) s2 show ?case
    by (simp only: run_append foldl_Cons) simp
qed

text \<open>
  C5, as the extractor has it. Take an input \<open>pre\<close> that the extractor reads without
  raising, with the result \<open>ms0\<close>, and a line \<open>l\<close> that declares the material \<open>x\<close>;
  \<open>pre\<close> is arbitrary, so it may hold a block of \<open>x\<close>, closed or not. Right after \<open>l\<close> the
  entry of \<open>x\<close> is the empty dictionary, in the place it had if it had one, and the other
  materials are untouched. Whatever follows \<open>l\<close>, the extractor raises on the whole input
  exactly when it raises on the input that starts at \<open>l\<close>, with the same exception, and
  otherwise the entry of \<open>x\<close> is the same in both results: nothing of \<open>pre\<close> is left in
  it. And when \<open>l\<close> is followed by a block of property sections, the extractor returns
  and the entry of \<open>x\<close> holds exactly the properties of that block.
\<close>

theorem redeclared_material_replaced:
  assumes "extract_material_properties pre = Inr ms0"
    and "material_start l = Some x"
  shows "extract_material_properties (pre @ [l]) = Inr (dict_set ms0 x [])
     \<and> map_sum id (\<lambda>ms. dict_get ms x) (extract_material_properties (pre @ l # post))
         = map_sum id (\<lambda>ms. dict_get ms x) (extract_material_properties (l # post))
     \<and> (list_all section_ok secs \<longrightarrow>
          (\<exists>ms. extract_material_properties (pre @ l # block_lines secs) = Inr ms
              \<and> dict_get ms x = Some (block_props secs)))"
proof -
  from assms(2) obtain line where line: "clean l = Some line"
    "startswith (upper line) ''*MATERIAL''" "search_attr ''name'' token_char line = Some x"
    by (auto simp: material_start_def split: option.splits if_splits)
  from assms(1) obtain s0 where s0: "run init pre = Inr s0" "wf s0" "materials s0 = ms0"
    by (rule wf_extract)
  let ?s1 = "s0\<lparr>materials := dict_set (materials s0) x [], current_material := Some x,
                 current_property := None, reading_data := False\<rparr>"
  let ?t1 = "init\<lparr>materials := dict_set (materials init) x [], current_material := Some x,
                   current_property := None, reading_data := False\<rparr>"
  have s1: "process_line s0 l = Inr ?s1" and t1: "process_line init l = Inr ?t1"
    by (rule process_line_named[OF line])+
  have wf: "wf ?s1" "wf ?t1"
    using s0(2) s1 wf_init t1 by (auto dest: wf_step_Inr)
  have x: "x \<noteq> []"
    using wf(1) by (simp add: wf_def)
  have one: "extract_material_properties (pre @ [l]) = Inr (dict_set ms0 x [])"
    using s0(1,3) s1 by (simp add: extract_material_properties_def run_append)
  have "agree x ?s1 ?t1"
    by (simp add: agree_def dict_get_set)
  with wf have rel: "rel_sum (=) (agree x) (run ?s1 post) (run ?t1 post)"
    by (rule agree_run)
  have two: "map_sum id (\<lambda>ms. dict_get ms x) (extract_material_properties (pre @ l # post))
      = map_sum id (\<lambda>ms. dict_get ms x) (extract_material_properties (l # post))"
  proof (cases "run ?s1 post")
    case (Inl e)
    with rel have "run ?t1 post = Inl e"
      by (cases "run ?t1 post") simp_all
    with Inl s0(1) s1 t1 show ?thesis
      by (simp add: extract_material_properties_def run_append)
  next
    case (Inr s2)
    with rel obtain t2 where "run ?t1 post = Inr t2" "agree x s2 t2"
      by (cases "run ?t1 post") simp_all
    with Inr s0(1) s1 t1 show ?thesis
      by (simp add: extract_material_properties_def run_append agree_def)
  qed
  have three: "\<exists>ms. extract_material_properties (pre @ l # block_lines secs) = Inr ms
      \<and> dict_get ms x = Some (block_props secs)" if "list_all section_ok secs"
  proof -
    have "\<exists>s'. run ?s1 (block_lines secs) = Inr s' \<and> current_material s' = Some x
        \<and> dict_get (materials s') x = Some (foldl section_props [] secs)"
      using x that by (intro run_block) (simp_all add: dict_get_set)
    with s0(1) s1 show ?thesis
      by (auto simp: extract_material_properties_def run_append block_props_def)
  qed
  from one two three show ?thesis by blast
qed

theorem redeclared_material_replaced_witness:
  "extract_material_properties
     ([''*MATERIAL, name=X'', ''*ELASTIC, TYPE=ISO'', ''1.0''] @ [''*Material, NAME = X''])
     = Inr [(''X'', [])]
   \<and> (\<exists>ms. extract_material_properties
            ([''*MATERIAL, name=X'', ''*ELASTIC, TYPE=ISO'', ''1.0'']
               @ ''*Material, NAME = X'' # [''*DENSITY'', ''2.0'']) = Inr ms
        \<and> dict_get ms ''X'' = Some [(''Density'', PList [PList [PFloat (Finite 2)]])])"
proof -
  let ?old = "[(''X'', [(''Elastic'', PList [PList [PFloat (Finite 1)]]),
                        (''Elastic_Type'', PStr ''ISO'')])]"
  let ?secs = "[(''*DENSITY'', [''2.0''])]"
  have pre: "extract_material_properties [''*MATERIAL, name=X'', ''*ELASTIC, TYPE=ISO'', ''1.0'']
      = Inr ?old"
    by code_simp
  have l: "material_start ''*Material, NAME = X'' = Some ''X''" by code_simp
  have ok: "list_all section_ok ?secs" by code_simp
  have b: "block_lines ?secs = [''*DENSITY'', ''2.0'']" by (simp add: block_lines_def)
  have p: "block_props ?secs = [(''Density'', PList [PList [PFloat (Finite 2)]])]" by code_simp
  have e: "dict_set ?old ''X'' [] = [(''X'', [])]" by simp
  from redeclared_material_replaced[OF pre l, of "[]" ?secs] ok show ?thesis
    by (simp only: b p e)
qed

theorem redeclared_material_counterexample:
  "extract_material_properties
     [''*MATERIAL, name=X'', ''*ELASTIC'', ''1.0'', ''*MATERIAL, name=X'',
      long_digits ''*DEPVAR, '']
   = Inl ValueError"
proof -
  let ?s = "\<lparr>materials = [(''X'', [])], current_material = Some ''X'',
             current_property = None, reading_data = False\<rparr>"
  let ?ds = "replicate 4301 CHR ''1''"
  let ?line = "''*DEPVAR, '' @ ?ds"
  have four: "run init [''*MATERIAL, name=X'', ''*ELASTIC'', ''1.0'', ''*MATERIAL, name=X'']
      = Inr ?s"
    by code_simp
  have ds: "?ds \<noteq> []" "\<forall>c\<in>set ?ds. isdigit c" "int_max_str_digits < length ?ds"
    using long_digits_facts by simp_all
  have c: "clean ?line = Some ?line"
    using ds(1,2) by (rule clean_depvar_digits)
  have u: "startswith (upper ?line) ''*DEPVAR''"
    by (rule upper_depvar_digits)
  have g: "search_digits ?line = Some ?ds"
    using ds(1,2) by (rule search_digits_depvar)
  have n: "recognised ?line = None"
    using u by (rule depvar_not_recognised)
  have m: "\<not> startswith (upper ?line) ''*MATERIAL''"
    using u by (rule startswith_other) simp_all
  have st: "startswith ?line ''*''" by simp
  have "process_line ?s ?line = Inl ValueError"
    using process_line_other[OF c m st n, of ?s "''X''" "[]"] u g ds(3)
    by (simp add: dict_get_def)
  with four show ?thesis
    by (simp add: extract_material_properties_def run_append[of _ "[_, _, _, _]" "[_]", simplified]
        long_digits_def)
qed

end
